theory Spec2Isabelle
  imports Complex_Main
begin

section \<open>Vectors, directions and rectangles\<close>

text \<open>
  Tile coordinates, tile sizes and rotations are JavaScript numbers holding integers;
  they are modelled as \<open>int\<close> (exact as long as the values stay in the range where
  a double represents every integer). Slot progress and draw positions are \<open>real\<close>.
\<close>

record Vector =
  vec_x :: int
  vec_y :: int

record Rectangle =
  rect_x :: int
  rect_y :: int
  rect_w :: int
  rect_h :: int

datatype enumDirection = Top | Right | Bottom | Left

datatype error =
    RotationNotMultipleOf90 int
  | InvalidRotation
  | InvalidAngle int
  | TypeError

definition and_then :: "error + 'a \<Rightarrow> ('a \<Rightarrow> error + 'b) \<Rightarrow> error + 'b" where
  "and_then r f = (case r of Inl e \<Rightarrow> Inl e | Inr v \<Rightarrow> f v)"

definition js_rem :: "int \<Rightarrow> int \<Rightarrow> int" where
  \<comment> \<open>The JavaScript remainder \<open>a % b\<close> on integers: the sign follows the dividend.\<close>
  "js_rem a b = sgn a * (\<bar>a\<bar> mod \<bar>b\<bar>)"

definition vec_add :: "Vector \<Rightarrow> Vector \<Rightarrow> Vector" where
  "vec_add a b = \<lparr>vec_x = vec_x a + vec_x b, vec_y = vec_y a + vec_y b\<rparr>"

definition vec_sub :: "Vector \<Rightarrow> Vector \<Rightarrow> Vector" where
  "vec_sub a b = \<lparr>vec_x = vec_x a - vec_x b, vec_y = vec_y a - vec_y b\<rparr>"

definition rotateFastMultipleOf90 :: "Vector \<Rightarrow> int \<Rightarrow> error + Vector" where
  \<comment> \<open>Modelled from the spec: \<open>Vector.rotateFastMultipleOf90\<close> of core/vector is not among
      the sources. The spec (4.1) describes a rotation without trigonometry, a 2x2 integer
      rotation matrix selected by a 4-way switch, that fails when the angle is not a
      multiple of 90. The sense of rotation is the one the spec's scenario fixes
      (90 degrees takes "right" to "down") and the one \<open>getTileSpaceBounds\<close> is written for.\<close>
  "rotateFastMultipleOf90 v angle =
     (if angle mod 90 \<noteq> 0 then Inl (InvalidAngle angle)
      else let a = angle mod 360 in
        if a = 0 then Inr \<lparr>vec_x = vec_x v, vec_y = vec_y v\<rparr>
        else if a = 90 then Inr \<lparr>vec_x = - vec_y v, vec_y = vec_x v\<rparr>
        else if a = 180 then Inr \<lparr>vec_x = - vec_x v, vec_y = - vec_y v\<rparr>
        else Inr \<lparr>vec_x = vec_y v, vec_y = - vec_x v\<rparr>)"

fun directionIndex :: "enumDirection \<Rightarrow> nat" where
  "directionIndex Top = 0"
| "directionIndex Right = 1"
| "directionIndex Bottom = 2"
| "directionIndex Left = 3"

definition directionCycle :: "enumDirection list" where
  "directionCycle = [Top, Right, Bottom, Left]"

definition transformDirectionFromMultipleOf90 :: "enumDirection \<Rightarrow> int \<Rightarrow> error + enumDirection" where
  \<comment> \<open>Modelled from the spec: \<open>Vector.transformDirectionFromMultipleOf90\<close> of core/vector is
      not among the sources. The spec (4.1) describes the rotation of a cardinal direction by
      the same angle as an index shift into the 4-direction cycle.\<close>
  "transformDirectionFromMultipleOf90 d angle =
     (if angle mod 90 \<noteq> 0 then Inl (InvalidAngle angle)
      else Inr (directionCycle ! ((directionIndex d + nat ((angle mod 360) div 90)) mod 4)))"

fun enumDirectionToVector :: "enumDirection \<Rightarrow> Vector" where
  \<comment> \<open>Modelled from the spec: the unit-vector lookup of core/vector is not among the sources.
      The spec's scenarios put "right" at +x and "down" at +y (screen coordinates).\<close>
  "enumDirectionToVector Top = \<lparr>vec_x = 0, vec_y = -1\<rparr>"
| "enumDirectionToVector Right = \<lparr>vec_x = 1, vec_y = 0\<rparr>"
| "enumDirectionToVector Bottom = \<lparr>vec_x = 0, vec_y = 1\<rparr>"
| "enumDirectionToVector Left = \<lparr>vec_x = -1, vec_y = 0\<rparr>"

section \<open>StaticMapEntityComponent\<close>

record StaticMapEntityComponent =
  origin :: Vector
  tileSize :: Vector
  spriteKey :: "string option"
  rotation :: int
  originalRotation :: int
  silhouetteColor :: "string option"

definition new_StaticMapEntityComponent ::
  "Vector \<Rightarrow> Vector \<Rightarrow> int \<Rightarrow> int \<Rightarrow> string option \<Rightarrow> string option
     \<Rightarrow> error + StaticMapEntityComponent" where
  \<comment> \<open>The constructor: the only assertion is on \<open>rotation\<close>.\<close>
  "new_StaticMapEntityComponent origin' tileSize' rotation' originalRotation' spriteKey' silhouetteColor' =
     (if js_rem rotation' 90 = 0
      then Inr \<lparr>origin = origin', tileSize = tileSize', spriteKey = spriteKey',
                rotation = rotation', originalRotation = originalRotation',
                silhouetteColor = silhouetteColor'\<rparr>
      else Inl (RotationNotMultipleOf90 rotation'))"

definition getTileSpaceBounds :: "StaticMapEntityComponent \<Rightarrow> error + Rectangle" where
  "getTileSpaceBounds c =
     (if rotation c = 0 then
        Inr \<lparr>rect_x = vec_x (origin c), rect_y = vec_y (origin c),
             rect_w = vec_x (tileSize c), rect_h = vec_y (tileSize c)\<rparr>
      else if rotation c = 90 then
        Inr \<lparr>rect_x = vec_x (origin c) - vec_y (tileSize c) + 1, rect_y = vec_y (origin c),
             rect_w = vec_y (tileSize c), rect_h = vec_x (tileSize c)\<rparr>
      else if rotation c = 180 then
        Inr \<lparr>rect_x = vec_x (origin c) - vec_x (tileSize c) + 1,
             rect_y = vec_y (origin c) - vec_y (tileSize c) + 1,
             rect_w = vec_x (tileSize c), rect_h = vec_y (tileSize c)\<rparr>
      else if rotation c = 270 then
        Inr \<lparr>rect_x = vec_x (origin c), rect_y = vec_y (origin c) - vec_x (tileSize c) + 1,
             rect_w = vec_y (tileSize c), rect_h = vec_x (tileSize c)\<rparr>
      else Inl InvalidRotation)"

definition applyRotationToVector :: "StaticMapEntityComponent \<Rightarrow> Vector \<Rightarrow> error + Vector" where
  "applyRotationToVector c v = rotateFastMultipleOf90 v (rotation c)"

definition unapplyRotationToVector :: "StaticMapEntityComponent \<Rightarrow> Vector \<Rightarrow> error + Vector" where
  "unapplyRotationToVector c v = rotateFastMultipleOf90 v (360 - rotation c)"

definition localDirectionToWorld ::
  "StaticMapEntityComponent \<Rightarrow> enumDirection \<Rightarrow> error + enumDirection" where
  "localDirectionToWorld c d = transformDirectionFromMultipleOf90 d (rotation c)"

definition worldDirectionToLocal ::
  "StaticMapEntityComponent \<Rightarrow> enumDirection \<Rightarrow> error + enumDirection" where
  "worldDirectionToLocal c d = transformDirectionFromMultipleOf90 d (360 - rotation c)"

definition localTileToWorld :: "StaticMapEntityComponent \<Rightarrow> Vector \<Rightarrow> error + Vector" where
  "localTileToWorld c localTile =
     and_then (applyRotationToVector c localTile) (\<lambda>result. Inr (vec_add result (origin c)))"

definition worldToLocalTile :: "StaticMapEntityComponent \<Rightarrow> Vector \<Rightarrow> error + Vector" where
  "worldToLocalTile c worldTile =
     (let localUnrotated = vec_sub worldTile (origin c)
      in unapplyRotationToVector c localUnrotated)"

section \<open>Item ejector slots, entities and the game root\<close>

record 'i ItemEjectorSlot =
  pos :: Vector
  direction :: enumDirection
  item :: "'i option"
  progress :: real

record 'i ItemEjectorComponent =
  slots :: "'i ItemEjectorSlot list"

text \<open>
  The components of an entity that the ejector system reads. The acceptor, belt, item
  processor and underground belt components are defined outside the sources at hand; their
  states are the type parameters \<open>'a\<close>, \<open>'b\<close>, \<open>'p\<close> and \<open>'u\<close>, and \<open>'i\<close> is the item type.
  A component that an entity does not have is \<open>None\<close> (\<open>undefined\<close> in the source).
\<close>

record ('i, 'a, 'b, 'p, 'u) Components =
  ItemEjector :: "'i ItemEjectorComponent option"
  StaticMapEntity :: "StaticMapEntityComponent option"
  ItemAcceptor :: "'a option"
  Belt :: "'b option"
  ItemProcessor :: "'p option"
  UndergroundBelt :: "'u option"

text \<open>
  The game root as the system uses it: entities are objects shared by reference, so they live
  in a store indexed by entity reference; \<open>allEntities\<close> is the system's entity list,
  \<open>getTileContent\<close> the lookup of the map, and the remaining fields are what
  \<open>hubGoals\<close> and \<open>globalConfig\<close> supply.
\<close>

record ('i, 'a, 'b, 'p, 'u) GameRoot =
  entities :: "nat \<Rightarrow> ('i, 'a, 'b, 'p, 'u) Components"
  allEntities :: "nat list"
  getTileContent :: "Vector \<Rightarrow> nat option"
  getBeltBaseSpeed :: real
  getUndergroundBeltBaseSpeed :: real
  physicsDeltaSeconds :: real
  globalConfig_tileSize :: real

text \<open>
  The methods of the receiving components, which the sources at hand only call. They are
  parameters of the model, with the signatures of the spec's capability contract (4.3, 6):
  the three queries return a value, \<open>takeNewItem\<close> returns the belt's new state, and the
  two \<open>try\<close> methods return their boolean result with the component's new state.
\<close>

record ('i, 'a, 'b, 'p, 'u) ReceiverMethods =
  findMatchingSlot :: "'a \<Rightarrow> Vector \<Rightarrow> enumDirection \<Rightarrow> (nat \<times> enumDirection) option"
  canAcceptItem :: "'a \<Rightarrow> nat \<Rightarrow> 'i \<Rightarrow> bool"
  canAcceptNewItem :: "'b \<Rightarrow> enumDirection \<Rightarrow> bool"
  takeNewItem :: "'b \<Rightarrow> 'i \<Rightarrow> enumDirection \<Rightarrow> 'b"
  tryTakeItem :: "'p \<Rightarrow> 'i \<Rightarrow> nat \<Rightarrow> enumDirection \<Rightarrow> bool \<times> 'p"
  tryAcceptExternalItem :: "'u \<Rightarrow> 'i \<Rightarrow> real \<Rightarrow> bool \<times> 'u"

text \<open>
  The calls the system makes on the map and on a receiver are recorded in order, each with
  the entity it is made on, its arguments and, for the \<open>try\<close> methods, its result.
\<close>

datatype 'i call =
    GetTileContent Vector
  | FindMatchingSlot nat Vector enumDirection
  | CanAcceptItem nat nat 'i
  | CanAcceptNewItem nat enumDirection
  | TakeNewItem nat 'i enumDirection
  | TryTakeItem nat 'i nat enumDirection bool
  | TryAcceptExternalItem nat 'i real bool

datatype capability = DirectLaneCarrier | MultiSlotProcessor | TeleportRelay

fun capabilityOf :: "'i call \<Rightarrow> capability option" where
  "capabilityOf (CanAcceptNewItem _ _) = Some DirectLaneCarrier"
| "capabilityOf (TakeNewItem _ _ _) = Some DirectLaneCarrier"
| "capabilityOf (TryTakeItem _ _ _ _ _) = Some MultiSlotProcessor"
| "capabilityOf (TryAcceptExternalItem _ _ _ _) = Some TeleportRelay"
| "capabilityOf _ = None"

fun taken :: "'i call \<Rightarrow> bool" where
  \<comment> \<open>The calls by which a receiver takes the item.\<close>
  "taken (TakeNewItem _ _ _) = True"
| "taken (TryTakeItem _ _ _ _ ok) = ok"
| "taken (TryAcceptExternalItem _ _ _ ok) = ok"
| "taken _ = False"

fun transfers :: "'i call \<Rightarrow> (nat \<times> 'i) list" where
  \<comment> \<open>The transfer of ownership a call performs: the receiving entity and the item.\<close>
  "transfers (TakeNewItem r i _) = [(r, i)]"
| "transfers (TryTakeItem r i _ _ ok) = (if ok then [(r, i)] else [])"
| "transfers (TryAcceptExternalItem r i _ ok) = (if ok then [(r, i)] else [])"
| "transfers _ = []"

section \<open>ItemEjectorSystem\<close>

definition setComponents ::
  "('i, 'a, 'b, 'p, 'u) GameRoot \<Rightarrow> nat \<Rightarrow> ('i, 'a, 'b, 'p, 'u) Components
     \<Rightarrow> ('i, 'a, 'b, 'p, 'u) GameRoot" where
  "setComponents rt ref comps = rt\<lparr>entities := (entities rt)(ref := comps)\<rparr>"

definition passToBelt ::
  "('i, 'a, 'b, 'p, 'u) ReceiverMethods \<Rightarrow> ('i, 'a, 'b, 'p, 'u) GameRoot \<Rightarrow> 'i \<Rightarrow> nat
     \<Rightarrow> enumDirection \<Rightarrow> bool \<times> ('i, 'a, 'b, 'p, 'u) GameRoot \<times> 'i call list" where
  \<comment> \<open>The first block of \<open>tryPassOverItem\<close>: \<open>True\<close> is its \<open>return true\<close>.\<close>
  "passToBelt m rt item' receiver localDirection =
     (case Belt (entities rt receiver) of
        None \<Rightarrow> (False, rt, [])
      | Some beltComp \<Rightarrow>
          if canAcceptNewItem m beltComp localDirection
          then (True,
                setComponents rt receiver
                  ((entities rt receiver)\<lparr>Belt := Some (takeNewItem m beltComp item' localDirection)\<rparr>),
                [CanAcceptNewItem receiver localDirection, TakeNewItem receiver item' localDirection])
          else (False, rt, [CanAcceptNewItem receiver localDirection]))"

definition passToItemProcessor ::
  "('i, 'a, 'b, 'p, 'u) ReceiverMethods \<Rightarrow> ('i, 'a, 'b, 'p, 'u) GameRoot \<Rightarrow> 'i \<Rightarrow> nat
     \<Rightarrow> nat \<Rightarrow> enumDirection \<Rightarrow> bool \<times> ('i, 'a, 'b, 'p, 'u) GameRoot \<times> 'i call list" where
  \<comment> \<open>The second block of \<open>tryPassOverItem\<close>.\<close>
  "passToItemProcessor m rt item' receiver slotIndex localDirection =
     (case ItemProcessor (entities rt receiver) of
        None \<Rightarrow> (False, rt, [])
      | Some itemProcessorComp \<Rightarrow>
          (case tryTakeItem m itemProcessorComp item' slotIndex localDirection of
             (ok, itemProcessorComp') \<Rightarrow>
               (ok,
                setComponents rt receiver
                  ((entities rt receiver)\<lparr>ItemProcessor := Some itemProcessorComp'\<rparr>),
                [TryTakeItem receiver item' slotIndex localDirection ok])))"

definition passToUndergroundBelt ::
  "('i, 'a, 'b, 'p, 'u) ReceiverMethods \<Rightarrow> ('i, 'a, 'b, 'p, 'u) GameRoot \<Rightarrow> 'i \<Rightarrow> nat
     \<Rightarrow> bool \<times> ('i, 'a, 'b, 'p, 'u) GameRoot \<times> 'i call list" where
  \<comment> \<open>The third block of \<open>tryPassOverItem\<close>.\<close>
  "passToUndergroundBelt m rt item' receiver =
     (case UndergroundBelt (entities rt receiver) of
        None \<Rightarrow> (False, rt, [])
      | Some undergroundBeltComp \<Rightarrow>
          (case tryAcceptExternalItem m undergroundBeltComp item' (getUndergroundBeltBaseSpeed rt) of
             (ok, undergroundBeltComp') \<Rightarrow>
               (ok,
                setComponents rt receiver
                  ((entities rt receiver)\<lparr>UndergroundBelt := Some undergroundBeltComp'\<rparr>),
                [TryAcceptExternalItem receiver item' (getUndergroundBeltBaseSpeed rt) ok])))"

definition tryPassOverItem ::
  "('i, 'a, 'b, 'p, 'u) ReceiverMethods \<Rightarrow> ('i, 'a, 'b, 'p, 'u) GameRoot \<Rightarrow> 'i \<Rightarrow> nat
     \<Rightarrow> nat \<Rightarrow> enumDirection \<Rightarrow> bool \<times> ('i, 'a, 'b, 'p, 'u) GameRoot \<times> 'i call list" where
  \<comment> \<open>The three blocks in the order of the source; a block that does not return \<open>true\<close>
      falls through to the next one, and the end of the function returns \<open>false\<close>.\<close>
  "tryPassOverItem m rt item' receiver slotIndex localDirection =
     (case passToBelt m rt item' receiver localDirection of
        (ok1, rt1, calls1) \<Rightarrow>
          if ok1 then (True, rt1, calls1)
          else (case passToItemProcessor m rt1 item' receiver slotIndex localDirection of
            (ok2, rt2, calls2) \<Rightarrow>
              if ok2 then (True, rt2, calls1 @ calls2)
              else (case passToUndergroundBelt m rt2 item' receiver of
                (ok3, rt3, calls3) \<Rightarrow>
                  if ok3 then (True, rt3, calls1 @ calls2 @ calls3)
                  else (False, rt3, calls1 @ calls2 @ calls3))))"

definition setSlot ::
  "('i, 'a, 'b, 'p, 'u) GameRoot \<Rightarrow> nat \<Rightarrow> nat \<Rightarrow> ('i ItemEjectorSlot \<Rightarrow> 'i ItemEjectorSlot)
     \<Rightarrow> ('i, 'a, 'b, 'p, 'u) GameRoot" where
  \<comment> \<open>An assignment to a field of the slot object \<open>slots[ejectorSlotIndex]\<close> of an entity.\<close>
  "setSlot rt entity ejectorSlotIndex f =
     (case ItemEjector (entities rt entity) of
        None \<Rightarrow> rt
      | Some ejectorComp \<Rightarrow>
          setComponents rt entity
            ((entities rt entity)\<lparr>ItemEjector :=
               Some (ejectorComp\<lparr>slots :=
                 (slots ejectorComp)[ejectorSlotIndex := f (slots ejectorComp ! ejectorSlotIndex)]\<rparr>)\<rparr>))"

definition getSlot ::
  "('i, 'a, 'b, 'p, 'u) GameRoot \<Rightarrow> nat \<Rightarrow> nat \<Rightarrow> 'i ItemEjectorSlot option" where
  "getSlot rt entity ejectorSlotIndex =
     (case ItemEjector (entities rt entity) of
        None \<Rightarrow> None
      | Some ejectorComp \<Rightarrow>
          if ejectorSlotIndex < length (slots ejectorComp)
          then Some (slots ejectorComp ! ejectorSlotIndex) else None)"

definition progressGrowth :: "('i, 'a, 'b, 'p, 'u) GameRoot \<Rightarrow> real" where
  "progressGrowth rt = (getBeltBaseSpeed rt / (1 / 2)) * physicsDeltaSeconds rt"

definition findReceiver ::
  "('i, 'a, 'b, 'p, 'u) ReceiverMethods \<Rightarrow> ('i, 'a, 'b, 'p, 'u) GameRoot \<Rightarrow> nat \<Rightarrow> nat
     \<Rightarrow> 'i ItemEjectorSlot \<Rightarrow> 'i
     \<Rightarrow> error + (('i, 'a, 'b, 'p, 'u) GameRoot \<times> 'i call list)" where
  \<comment> \<open>The body of the slot loop from "Figure out where and into which direction we eject
      items" on; every \<open>continue\<close> returns the rt as it stands.\<close>
  "findReceiver m rt entity ejectorSlotIndex ejectorSlot ejectingItem =
     (case StaticMapEntity (entities rt entity) of
        None \<Rightarrow> Inl TypeError
      | Some staticComp \<Rightarrow>
     and_then (localTileToWorld staticComp (pos ejectorSlot)) (\<lambda>ejectSlotWsTile.
     and_then (localDirectionToWorld staticComp (direction ejectorSlot)) (\<lambda>ejectSlotWsDirection.
       let ejectSlotWsDirectionVector = enumDirectionToVector ejectSlotWsDirection;
           ejectSlotTargetWsTile = vec_add ejectSlotWsTile ejectSlotWsDirectionVector
       in (case getTileContent rt ejectSlotTargetWsTile of
            None \<Rightarrow> Inr (rt, [GetTileContent ejectSlotTargetWsTile])
          | Some targetEntity \<Rightarrow>
       (case ItemAcceptor (entities rt targetEntity) of
            None \<Rightarrow> Inr (rt, [GetTileContent ejectSlotTargetWsTile])
          | Some targetAcceptorComp \<Rightarrow>
       (case StaticMapEntity (entities rt targetEntity) of
            None \<Rightarrow> Inl TypeError
          | Some targetStaticComp \<Rightarrow>
     and_then (worldToLocalTile targetStaticComp ejectSlotTargetWsTile) (\<lambda>localTile.
     and_then (worldDirectionToLocal targetStaticComp ejectSlotWsDirection) (\<lambda>localDirection.
       let lookups = [GetTileContent ejectSlotTargetWsTile,
                      FindMatchingSlot targetEntity localTile localDirection]
       in (case findMatchingSlot m targetAcceptorComp localTile localDirection of
            None \<Rightarrow> Inr (rt, lookups)
          | Some (index, acceptedDirection) \<Rightarrow>
              if \<not> canAcceptItem m targetAcceptorComp index ejectingItem
              then Inr (rt, lookups @ [CanAcceptItem targetEntity index ejectingItem])
              else (case tryPassOverItem m rt ejectingItem targetEntity index acceptedDirection of
                (ok, rt', calls) \<Rightarrow>
                  if ok
                  then Inr (setSlot rt' entity ejectorSlotIndex (\<lambda>s. s\<lparr>item := None\<rparr>),
                            lookups @ [CanAcceptItem targetEntity index ejectingItem] @ calls)
                  else Inr (rt',
                            lookups @ [CanAcceptItem targetEntity index ejectingItem] @ calls)))))))))))"

definition updateSlot ::
  "('i, 'a, 'b, 'p, 'u) ReceiverMethods \<Rightarrow> real \<Rightarrow> ('i, 'a, 'b, 'p, 'u) GameRoot \<Rightarrow> nat \<Rightarrow> nat
     \<Rightarrow> error + (('i, 'a, 'b, 'p, 'u) GameRoot \<times> 'i call list)" where
  \<comment> \<open>One pass of the slot loop of \<open>update\<close>, for the slot \<open>ejectorSlotIndex\<close> of \<open>entity\<close>;
      \<open>growth\<close> is \<open>progressGrowth\<close>, computed once at the start of \<open>update\<close>.\<close>
  "updateSlot m growth rt entity ejectorSlotIndex =
     (case getSlot rt entity ejectorSlotIndex of
        None \<Rightarrow> Inl TypeError
      | Some ejectorSlot \<Rightarrow>
          (case item ejectorSlot of
             None \<Rightarrow> Inr (rt, [])
           | Some ejectingItem \<Rightarrow>
               let progress' = min 1 (progress ejectorSlot + growth);
                   rt1 = setSlot rt entity ejectorSlotIndex (\<lambda>s. s\<lparr>progress := progress'\<rparr>)
               in if progress' < 1 then Inr (rt1, [])
                  else findReceiver m rt1 entity ejectorSlotIndex
                         (ejectorSlot\<lparr>progress := progress'\<rparr>) ejectingItem))"

fun updateSlots ::
  "('i, 'a, 'b, 'p, 'u) ReceiverMethods \<Rightarrow> real \<Rightarrow> ('i, 'a, 'b, 'p, 'u) GameRoot \<Rightarrow> nat \<Rightarrow> nat list
     \<Rightarrow> error + (('i, 'a, 'b, 'p, 'u) GameRoot \<times> 'i call list)" where
  "updateSlots m growth rt entity [] = Inr (rt, [])"
| "updateSlots m growth rt entity (ejectorSlotIndex # rest) =
     and_then (updateSlot m growth rt entity ejectorSlotIndex) (\<lambda>(rt1, calls1).
     and_then (updateSlots m growth rt1 entity rest) (\<lambda>(rt2, calls2).
       Inr (rt2, calls1 @ calls2)))"

definition updateEntity ::
  "('i, 'a, 'b, 'p, 'u) ReceiverMethods \<Rightarrow> real \<Rightarrow> ('i, 'a, 'b, 'p, 'u) GameRoot \<Rightarrow> nat
     \<Rightarrow> error + (('i, 'a, 'b, 'p, 'u) GameRoot \<times> 'i call list)" where
  \<comment> \<open>The slot loop: the slot indices from 0 up to the length of the slot array, which no
      step of the loop changes.\<close>
  "updateEntity m growth rt entity =
     (case ItemEjector (entities rt entity) of
        None \<Rightarrow> Inl TypeError
      | Some ejectorComp \<Rightarrow> updateSlots m growth rt entity [0..<length (slots ejectorComp)])"

fun updateEntities ::
  "('i, 'a, 'b, 'p, 'u) ReceiverMethods \<Rightarrow> real \<Rightarrow> ('i, 'a, 'b, 'p, 'u) GameRoot \<Rightarrow> nat list
     \<Rightarrow> error + (('i, 'a, 'b, 'p, 'u) GameRoot \<times> 'i call list)" where
  "updateEntities m growth rt [] = Inr (rt, [])"
| "updateEntities m growth rt (entity # rest) =
     and_then (updateEntity m growth rt entity) (\<lambda>(rt1, calls1).
     and_then (updateEntities m growth rt1 rest) (\<lambda>(rt2, calls2).
       Inr (rt2, calls1 @ calls2)))"

definition update ::
  "('i, 'a, 'b, 'p, 'u) ReceiverMethods \<Rightarrow> ('i, 'a, 'b, 'p, 'u) GameRoot
     \<Rightarrow> error + (('i, 'a, 'b, 'p, 'u) GameRoot \<times> 'i call list)" where
  "update m rt = updateEntities m (progressGrowth rt) rt (allEntities rt)"

definition drawSlot ::
  "real \<Rightarrow> StaticMapEntityComponent option \<Rightarrow> 'i ItemEjectorSlot
     \<Rightarrow> error + ('i \<times> real \<times> real) list" where
  \<comment> \<open>One pass of the loop of \<open>drawSingleEntity\<close>; the result lists the calls of
      \<open>ejectedItem.draw(worldX, worldY, parameters)\<close> it makes.\<close>
  "drawSlot configTileSize staticComp slot =
     (case item slot of
        None \<Rightarrow> Inr []
      | Some ejectedItem \<Rightarrow>
          (case staticComp of
             None \<Rightarrow> Inl TypeError
           | Some staticComp \<Rightarrow>
     and_then (rotateFastMultipleOf90 (pos slot) (rotation staticComp)) (\<lambda>realPosition.
     and_then (transformDirectionFromMultipleOf90 (direction slot) (rotation staticComp))
       (\<lambda>realDirection.
       let realDirectionVector = enumDirectionToVector realDirection;
           tileX = real_of_int (vec_x (origin staticComp)) + real_of_int (vec_x realPosition)
                     + 1 / 2 + real_of_int (vec_x realDirectionVector) * (1 / 2) * progress slot;
           tileY = real_of_int (vec_y (origin staticComp)) + real_of_int (vec_y realPosition)
                     + 1 / 2 + real_of_int (vec_y realDirectionVector) * (1 / 2) * progress slot;
           worldX = tileX * configTileSize;
           worldY = tileY * configTileSize
       in Inr [(ejectedItem, worldX, worldY)]))))"

fun drawSlots ::
  "real \<Rightarrow> StaticMapEntityComponent option \<Rightarrow> 'i ItemEjectorSlot list
     \<Rightarrow> error + ('i \<times> real \<times> real) list" where
  "drawSlots configTileSize staticComp [] = Inr []"
| "drawSlots configTileSize staticComp (slot # rest) =
     and_then (drawSlot configTileSize staticComp slot) (\<lambda>draws1.
     and_then (drawSlots configTileSize staticComp rest) (\<lambda>draws2.
       Inr (draws1 @ draws2)))"

definition drawSingleEntity ::
  "('i, 'a, 'b, 'p, 'u) GameRoot \<Rightarrow> nat \<Rightarrow> error + ('i \<times> real \<times> real) list" where
  "drawSingleEntity rt entity =
     (case ItemEjector (entities rt entity) of
        None \<Rightarrow> Inl TypeError
      | Some ejectorComp \<Rightarrow>
          drawSlots (globalConfig_tileSize rt) (StaticMapEntity (entities rt entity))
            (slots ejectorComp))"

section \<open>Notions of the specification\<close>

definition rect_contains :: "Rectangle \<Rightarrow> Vector \<Rightarrow> bool" where
  \<comment> \<open>The tiles a rectangle covers: \<open>w\<close> columns from \<open>x\<close> and \<open>h\<close> rows from \<open>y\<close>.\<close>
  "rect_contains r v =
     (rect_x r \<le> vec_x v \<and> vec_x v < rect_x r + rect_w r \<and>
      rect_y r \<le> vec_y v \<and> vec_y v < rect_y r + rect_h r)"

definition exposes :: "('i, 'a, 'b, 'p, 'u) GameRoot \<Rightarrow> nat \<Rightarrow> capability \<Rightarrow> bool" where
  \<comment> \<open>The capabilities of the spec (4.3) are the components \<open>tryPassOverItem\<close> looks for.\<close>
  "exposes rt receiver c =
     (case c of
        DirectLaneCarrier \<Rightarrow> Belt (entities rt receiver) \<noteq> None
      | MultiSlotProcessor \<Rightarrow> ItemProcessor (entities rt receiver) \<noteq> None
      | TeleportRelay \<Rightarrow> UndergroundBelt (entities rt receiver) \<noteq> None)"

definition callSucceeds ::
  "('i, 'a, 'b, 'p, 'u) ReceiverMethods \<Rightarrow> ('i, 'a, 'b, 'p, 'u) GameRoot \<Rightarrow> 'i \<Rightarrow> nat
     \<Rightarrow> nat \<Rightarrow> enumDirection \<Rightarrow> capability \<Rightarrow> bool" where
  \<comment> \<open>Whether the call of a capability takes the item, on the receiver as it stands before
      the handoff.\<close>
  "callSucceeds m rt item' receiver slotIndex localDirection c =
     (case c of
        DirectLaneCarrier \<Rightarrow>
          (case Belt (entities rt receiver) of
             None \<Rightarrow> False
           | Some b \<Rightarrow> canAcceptNewItem m b localDirection)
      | MultiSlotProcessor \<Rightarrow>
          (case ItemProcessor (entities rt receiver) of
             None \<Rightarrow> False
           | Some p \<Rightarrow> fst (tryTakeItem m p item' slotIndex localDirection))
      | TeleportRelay \<Rightarrow>
          (case UndergroundBelt (entities rt receiver) of
             None \<Rightarrow> False
           | Some u \<Rightarrow> fst (tryAcceptExternalItem m u item' (getUndergroundBeltBaseSpeed rt))))"

definition priorityOrder :: "capability list" where
  "priorityOrder = [DirectLaneCarrier, MultiSlotProcessor, TeleportRelay]"

definition uptoFirst :: "('c \<Rightarrow> bool) \<Rightarrow> 'c list \<Rightarrow> 'c list" where
  \<comment> \<open>The elements of a list up to and including the first one that satisfies \<open>P\<close>.\<close>
  "uptoFirst P xs = takeWhile (\<lambda>x. \<not> P x) xs @ take 1 (dropWhile (\<lambda>x. \<not> P x) xs)"

definition tried ::
  "('i, 'a, 'b, 'p, 'u) ReceiverMethods \<Rightarrow> ('i, 'a, 'b, 'p, 'u) GameRoot \<Rightarrow> 'i \<Rightarrow> nat
     \<Rightarrow> nat \<Rightarrow> enumDirection \<Rightarrow> capability list" where
  \<comment> \<open>The capabilities a handoff tries: those the receiver exposes, in priority order, up to
      and including the first whose call takes the item.\<close>
  "tried m rt item' receiver slotIndex localDirection =
     uptoFirst (callSucceeds m rt item' receiver slotIndex localDirection)
       (filter (exposes rt receiver) priorityOrder)"

definition callsOf ::
  "('i, 'a, 'b, 'p, 'u) ReceiverMethods \<Rightarrow> ('i, 'a, 'b, 'p, 'u) GameRoot \<Rightarrow> 'i \<Rightarrow> nat
     \<Rightarrow> nat \<Rightarrow> enumDirection \<Rightarrow> capability \<Rightarrow> 'i call list" where
  \<comment> \<open>The calls that trying one capability consists of, by the contract of the spec (4.3): a
      belt is asked \<open>canAcceptNewItem\<close> and, if it says yes, given the item with
      \<open>takeNewItem\<close>; an item processor gets one \<open>tryTakeItem\<close>; an underground belt gets
      one \<open>tryAcceptExternalItem\<close> with the underground belt speed of the hub goals.\<close>
  "callsOf m rt item' receiver slotIndex localDirection c =
     (case c of
        DirectLaneCarrier \<Rightarrow>
          (case Belt (entities rt receiver) of
             None \<Rightarrow> []
           | Some b \<Rightarrow>
               if canAcceptNewItem m b localDirection
               then [CanAcceptNewItem receiver localDirection,
                     TakeNewItem receiver item' localDirection]
               else [CanAcceptNewItem receiver localDirection])
      | MultiSlotProcessor \<Rightarrow>
          (case ItemProcessor (entities rt receiver) of
             None \<Rightarrow> []
           | Some p \<Rightarrow>
               [TryTakeItem receiver item' slotIndex localDirection
                  (fst (tryTakeItem m p item' slotIndex localDirection))])
      | TeleportRelay \<Rightarrow>
          (case UndergroundBelt (entities rt receiver) of
             None \<Rightarrow> []
           | Some u \<Rightarrow>
               [TryAcceptExternalItem receiver item' (getUndergroundBeltBaseSpeed rt)
                  (fst (tryAcceptExternalItem m u item' (getUndergroundBeltBaseSpeed rt)))]))"

definition componentsAfter ::
  "('i, 'a, 'b, 'p, 'u) ReceiverMethods \<Rightarrow> 'i \<Rightarrow> nat \<Rightarrow> enumDirection \<Rightarrow> real
     \<Rightarrow> ('i, 'a, 'b, 'p, 'u) Components \<Rightarrow> capability \<Rightarrow> ('i, 'a, 'b, 'p, 'u) Components" where
  \<comment> \<open>The receiver's components after one capability has been tried: the component that was
      called holds the state its method returned, and a belt that refused was not called to
      take anything.\<close>
  "componentsAfter m item' slotIndex localDirection speed comps c =
     (case c of
        DirectLaneCarrier \<Rightarrow>
          (case Belt comps of
             None \<Rightarrow> comps
           | Some b \<Rightarrow>
               if canAcceptNewItem m b localDirection
               then comps\<lparr>Belt := Some (takeNewItem m b item' localDirection)\<rparr>
               else comps)
      | MultiSlotProcessor \<Rightarrow>
          (case ItemProcessor comps of
             None \<Rightarrow> comps
           | Some p \<Rightarrow>
               comps\<lparr>ItemProcessor := Some (snd (tryTakeItem m p item' slotIndex localDirection))\<rparr>)
      | TeleportRelay \<Rightarrow>
          (case UndergroundBelt comps of
             None \<Rightarrow> comps
           | Some u \<Rightarrow>
               comps\<lparr>UndergroundBelt := Some (snd (tryAcceptExternalItem m u item' speed))\<rparr>))"

fun received ::
  "('i, 'a, 'b, 'p, 'u) ReceiverMethods \<Rightarrow> ('i, 'a, 'b, 'p, 'u) GameRoot
     \<Rightarrow> ('i, 'a, 'b, 'p, 'u) GameRoot \<Rightarrow> 'i call \<Rightarrow> bool" where
  \<comment> \<open>The receiver has the item: after the call, the component that was called holds the
      state its method returned for this item, computed from its state before.\<close>
  "received m rt rt' (TakeNewItem r i d) =
     (case Belt (entities rt r) of
        None \<Rightarrow> False
      | Some b \<Rightarrow> Belt (entities rt' r) = Some (takeNewItem m b i d))"
| "received m rt rt' (TryTakeItem r i k d ok) =
     (case ItemProcessor (entities rt r) of
        None \<Rightarrow> False
      | Some p \<Rightarrow> fst (tryTakeItem m p i k d) = ok
          \<and> ItemProcessor (entities rt' r) = Some (snd (tryTakeItem m p i k d)))"
| "received m rt rt' (TryAcceptExternalItem r i v ok) =
     (case UndergroundBelt (entities rt r) of
        None \<Rightarrow> False
      | Some u \<Rightarrow> fst (tryAcceptExternalItem m u i v) = ok
          \<and> UndergroundBelt (entities rt' r) = Some (snd (tryAcceptExternalItem m u i v)))"
| "received m rt rt' _ = False"

datatype blocking =
  NoEntityAtTarget | NoAcceptor | NoMatchingSlot | AcceptanceRefused | CallReturnsFalse

definition handoffBlocked ::
  "('i, 'a, 'b, 'p, 'u) ReceiverMethods \<Rightarrow> ('i, 'a, 'b, 'p, 'u) GameRoot \<Rightarrow> nat
     \<Rightarrow> 'i ItemEjectorSlot \<Rightarrow> 'i \<Rightarrow> blocking option" where
  \<comment> \<open>Which of the five conditions of the spec (4.2, steps 3 to 7) keeps a slot at progress 1
      blocked in the environment \<open>rt\<close>: no entity on the target tile, an entity without an
      acceptor, no matching slot, a refused acceptance, or no capability whose call takes the
      item. \<open>None\<close> when none of them holds.\<close>
  "handoffBlocked m rt entity ejectorSlot ejectingItem =
     (case StaticMapEntity (entities rt entity) of
        None \<Rightarrow> None
      | Some staticComp \<Rightarrow>
     (case localTileToWorld staticComp (pos ejectorSlot) of
        Inl _ \<Rightarrow> None
      | Inr wsTile \<Rightarrow>
     (case localDirectionToWorld staticComp (direction ejectorSlot) of
        Inl _ \<Rightarrow> None
      | Inr wsDirection \<Rightarrow>
     (case getTileContent rt (vec_add wsTile (enumDirectionToVector wsDirection)) of
        None \<Rightarrow> Some NoEntityAtTarget
      | Some receiver \<Rightarrow>
     (case ItemAcceptor (entities rt receiver) of
        None \<Rightarrow> Some NoAcceptor
      | Some acceptor \<Rightarrow>
     (case StaticMapEntity (entities rt receiver) of
        None \<Rightarrow> None
      | Some targetStatic \<Rightarrow>
     (case worldToLocalTile targetStatic
             (vec_add wsTile (enumDirectionToVector wsDirection)) of
        Inl _ \<Rightarrow> None
      | Inr localTile \<Rightarrow>
     (case worldDirectionToLocal targetStatic wsDirection of
        Inl _ \<Rightarrow> None
      | Inr localDirection \<Rightarrow>
     (case findMatchingSlot m acceptor localTile localDirection of
        None \<Rightarrow> Some NoMatchingSlot
      | Some (index, acceptedDirection) \<Rightarrow>
          if \<not> canAcceptItem m acceptor index ejectingItem then Some AcceptanceRefused
          else if filter (callSucceeds m rt ejectingItem receiver index acceptedDirection)
                    priorityOrder = []
          then Some CallReturnsFalse
          else None)))))))))"

definition receiverContract :: "('i, 'a, 'b, 'p, 'u) ReceiverMethods \<Rightarrow> bool" where
  \<comment> \<open>Modelled from the spec: the receivers are not among the sources. The capability contract
      (4.3) says of a call that returns \<open>false\<close> that no state changed on the receiver's side.\<close>
  "receiverContract m =
     ((\<forall>p i k d p'. tryTakeItem m p i k d = (False, p') \<longrightarrow> p' = p) \<and>
      (\<forall>u i v u'. tryAcceptExternalItem m u i v = (False, u') \<longrightarrow> u' = u))"

fun retrySlot ::
  "('i, 'a, 'b, 'p, 'u) ReceiverMethods \<Rightarrow> real \<Rightarrow> nat \<Rightarrow> ('i, 'a, 'b, 'p, 'u) GameRoot \<Rightarrow> nat \<Rightarrow> nat
     \<Rightarrow> error + ('i, 'a, 'b, 'p, 'u) GameRoot" where
  "retrySlot m growth 0 rt entity ejectorSlotIndex = Inr rt"
| "retrySlot m growth (Suc n) rt entity ejectorSlotIndex =
     and_then (updateSlot m growth rt entity ejectorSlotIndex)
       (\<lambda>(rt1, calls). retrySlot m growth n rt1 entity ejectorSlotIndex)"

definition specDrawPosition ::
  "real \<Rightarrow> StaticMapEntityComponent \<Rightarrow> 'i ItemEjectorSlot \<Rightarrow> error + real \<times> real" where
  \<comment> \<open>The draw position in the words of the spec (4.2):
      \<open>entityOrigin + rotate(localPosition) + rotate(localDirectionUnitVector) * 0.5 * progress\<close>
      in tile units, scaled by the tile size into pixels.\<close>
  "specDrawPosition configTileSize staticComp slot =
     and_then (rotateFastMultipleOf90 (pos slot) (rotation staticComp)) (\<lambda>p.
     and_then (rotateFastMultipleOf90 (enumDirectionToVector (direction slot)) (rotation staticComp))
       (\<lambda>d.
       Inr ((real_of_int (vec_x (origin staticComp)) + real_of_int (vec_x p)
               + real_of_int (vec_x d) * (1 / 2) * progress slot) * configTileSize,
            (real_of_int (vec_y (origin staticComp)) + real_of_int (vec_y p)
               + real_of_int (vec_y d) * (1 / 2) * progress slot) * configTileSize)))"

definition centredDrawPosition ::
  "real \<Rightarrow> StaticMapEntityComponent \<Rightarrow> 'i ItemEjectorSlot \<Rightarrow> error + real \<times> real" where
  \<comment> \<open>The position of the spec moved by half a tile in x and in y, to the centre of the
      slot's tile.\<close>
  "centredDrawPosition configTileSize staticComp slot =
     and_then (specDrawPosition configTileSize staticComp slot) (\<lambda>(x, y).
       Inr (x + (1 / 2) * configTileSize, y + (1 / 2) * configTileSize))"

definition expectedDraws ::
  "real \<Rightarrow> StaticMapEntityComponent \<Rightarrow> 'i ItemEjectorSlot list
     \<Rightarrow> ('i \<times> (error + real \<times> real)) list" where
  "expectedDraws configTileSize staticComp ss =
     concat (map (\<lambda>s. case item s of
                          None \<Rightarrow> []
                        | Some i \<Rightarrow> [(i, centredDrawPosition configTileSize staticComp s)]) ss)"

section \<open>Example configurations\<close>

text \<open>
  An emitter at the origin with one slot that ejects to the right, and next to it, on tile
  (1, 0), a receiver that has a belt and an item processor. Items are numbers, and a
  receiving component's state is the list of the items it has taken.
\<close>

definition exampleStatic :: "int \<Rightarrow> int \<Rightarrow> int \<Rightarrow> StaticMapEntityComponent" where
  "exampleStatic x y r =
     \<lparr>origin = \<lparr>vec_x = x, vec_y = y\<rparr>, tileSize = \<lparr>vec_x = 2, vec_y = 3\<rparr>, spriteKey = None,
      rotation = r, originalRotation = 0, silhouetteColor = None\<rparr>"

definition exampleSlot :: "real \<Rightarrow> nat ItemEjectorSlot" where
  "exampleSlot p = \<lparr>pos = \<lparr>vec_x = 0, vec_y = 0\<rparr>, direction = Right, item = Some 7, progress = p\<rparr>"

definition exampleEmitter :: "real \<Rightarrow> (nat, unit, nat list, nat list, nat list) Components" where
  "exampleEmitter p =
     \<lparr>ItemEjector = Some \<lparr>slots = [exampleSlot p]\<rparr>, StaticMapEntity = Some (exampleStatic 0 0 0),
      ItemAcceptor = None, Belt = None, ItemProcessor = None, UndergroundBelt = None\<rparr>"

definition exampleReceiver :: "(nat, unit, nat list, nat list, nat list) Components" where
  "exampleReceiver =
     \<lparr>ItemEjector = None, StaticMapEntity = Some (exampleStatic 1 0 0),
      ItemAcceptor = Some (), Belt = Some [], ItemProcessor = Some [], UndergroundBelt = None\<rparr>"

definition exampleRoot :: "real \<Rightarrow> (nat, unit, nat list, nat list, nat list) GameRoot" where
  "exampleRoot p =
     \<lparr>entities = (\<lambda>ref. if ref = 0 then exampleEmitter p else exampleReceiver),
      allEntities = [0],
      getTileContent = (\<lambda>tile. if tile = \<lparr>vec_x = 1, vec_y = 0\<rparr> then Some 1 else None),
      getBeltBaseSpeed = 1, getUndergroundBeltBaseSpeed = 1, physicsDeltaSeconds = 1 / 20,
      globalConfig_tileSize = 32\<rparr>"

definition exampleMethods ::
  "bool \<Rightarrow> bool \<Rightarrow> (nat, unit, nat list, nat list, nat list) ReceiverMethods" where
  \<comment> \<open>Receivers whose belt accepts a new item when \<open>beltFree\<close> holds and whose item
      processor and underground belt take an item when \<open>queueFree\<close> holds.\<close>
  "exampleMethods beltFree queueFree =
     \<lparr>findMatchingSlot = (\<lambda>acceptor localTile localDirection. Some (0, localDirection)),
      canAcceptItem = (\<lambda>acceptor index i. True),
      canAcceptNewItem = (\<lambda>belt localDirection. beltFree),
      takeNewItem = (\<lambda>belt i localDirection. belt @ [i]),
      tryTakeItem = (\<lambda>queue i index localDirection. (queueFree, if queueFree then queue @ [i] else queue)),
      tryAcceptExternalItem = (\<lambda>queue i speed. (queueFree, if queueFree then queue @ [i] else queue))\<rparr>"

text \<open>
  Four variations of the example in which the handoff is blocked before any capability is
  called: an empty map, a receiver without an acceptor, an acceptor that finds no matching
  slot, and an acceptor that refuses the item.
\<close>

definition emptyMapRoot :: "(nat, unit, nat list, nat list, nat list) GameRoot" where
  "emptyMapRoot = (exampleRoot 1)\<lparr>getTileContent := (\<lambda>tile. None)\<rparr>"

definition noAcceptorRoot :: "(nat, unit, nat list, nat list, nat list) GameRoot" where
  "noAcceptorRoot =
     (exampleRoot 1)\<lparr>entities :=
        (\<lambda>ref. if ref = 0 then exampleEmitter 1 else exampleReceiver\<lparr>ItemAcceptor := None\<rparr>)\<rparr>"

definition noSlotMethods :: "(nat, unit, nat list, nat list, nat list) ReceiverMethods" where
  "noSlotMethods =
     (exampleMethods True True)\<lparr>findMatchingSlot := (\<lambda>acceptor localTile localDirection. None)\<rparr>"

definition refusingAcceptorMethods ::
  "(nat, unit, nat list, nat list, nat list) ReceiverMethods" where
  "refusingAcceptorMethods =
     (exampleMethods True True)\<lparr>canAcceptItem := (\<lambda>acceptor index i. False)\<rparr>"

section \<open>Properties of the spatial transform\<close>

text \<open>
  C2. On a component whose rotation is 0, 90, 180 or 270, taking a local tile to the world
  and back gives the tile again, for every integer origin and every integer tile.
\<close>

theorem tile_round_trip:
  assumes "rotation c \<in> {0, 90, 180, 270}"
  shows "and_then (localTileToWorld c t) (worldToLocalTile c) = Inr t"
proof -
  from assms consider "rotation c = 0" | "rotation c = 90" | "rotation c = 180" | "rotation c = 270"
    by auto
  then show ?thesis
    by cases
      (simp_all add: and_then_def localTileToWorld_def worldToLocalTile_def
        applyRotationToVector_def unapplyRotationToVector_def rotateFastMultipleOf90_def
        vec_add_def vec_sub_def)
qed

theorem tile_round_trip_witness:
  "rotation (exampleStatic 4 (-7) 90) \<in> {0, 90, 180, 270}
   \<and> localTileToWorld (exampleStatic 4 (-7) 90) \<lparr>vec_x = 3, vec_y = 5\<rparr>
       = Inr \<lparr>vec_x = -1, vec_y = -4\<rparr>
   \<and> and_then (localTileToWorld (exampleStatic 4 (-7) 90) \<lparr>vec_x = 3, vec_y = 5\<rparr>)
        (worldToLocalTile (exampleStatic 4 (-7) 90))
       = Inr \<lparr>vec_x = 3, vec_y = 5\<rparr>"
  using tile_round_trip [of "exampleStatic 4 (-7) 90" "\<lparr>vec_x = 3, vec_y = 5\<rparr>"]
  by (simp add: exampleStatic_def localTileToWorld_def applyRotationToVector_def
      rotateFastMultipleOf90_def and_then_def vec_add_def)

text \<open>
  C3. On a component whose rotation is 0, 90, 180 or 270, taking a cardinal direction to the
  world and back gives the direction again; and the direction rotation agrees with the
  position rotation: the unit vector of the rotated direction is the rotated unit vector.
\<close>

theorem direction_round_trip:
  assumes "rotation c \<in> {0, 90, 180, 270}"
  shows "and_then (localDirectionToWorld c d) (worldDirectionToLocal c) = Inr d
    \<and> and_then (localDirectionToWorld c d) (\<lambda>d'. Inr (enumDirectionToVector d'))
        = applyRotationToVector c (enumDirectionToVector d)"
proof -
  from assms consider "rotation c = 0" | "rotation c = 90" | "rotation c = 180" | "rotation c = 270"
    by auto
  then show ?thesis
    by cases
      (cases d; simp add: and_then_def localDirectionToWorld_def worldDirectionToLocal_def
        transformDirectionFromMultipleOf90_def directionCycle_def applyRotationToVector_def
        rotateFastMultipleOf90_def)+
qed

theorem direction_round_trip_witness:
  "rotation (exampleStatic 0 0 90) \<in> {0, 90, 180, 270}
   \<and> localDirectionToWorld (exampleStatic 0 0 90) Right = Inr Bottom
   \<and> and_then (localDirectionToWorld (exampleStatic 0 0 90) Right)
        (worldDirectionToLocal (exampleStatic 0 0 90)) = Inr Right
   \<and> applyRotationToVector (exampleStatic 0 0 90) (enumDirectionToVector Right)
       = Inr (enumDirectionToVector Bottom)"
  using direction_round_trip [of "exampleStatic 0 0 90" Right]
  by (simp add: exampleStatic_def localDirectionToWorld_def
      transformDirectionFromMultipleOf90_def directionCycle_def and_then_def)

text \<open>
  C8. For a rotation of 0, 90, 180 or 270 and any tile size, \<open>getTileSpaceBounds\<close> returns a
  rectangle whose width times height is \<open>tileSize.x * tileSize.y\<close>. For 90 and 270 the width
  and the height are swapped and the anchor is moved back by the dimension minus one (in x
  for 90, in y for 270), and for a tile size of at least 1 by 1 the rectangle covers the
  origin tile in every rotation.
\<close>

theorem bounds_area_invariant:
  assumes "rotation c \<in> {0, 90, 180, 270}"
  shows "\<exists>r. getTileSpaceBounds c = Inr r
    \<and> rect_w r * rect_h r = vec_x (tileSize c) * vec_y (tileSize c)
    \<and> (rotation c \<in> {90, 270} \<longrightarrow>
         rect_w r = vec_y (tileSize c) \<and> rect_h r = vec_x (tileSize c))
    \<and> (rotation c = 90 \<longrightarrow>
         rect_x r = vec_x (origin c) - (vec_y (tileSize c) - 1) \<and> rect_y r = vec_y (origin c))
    \<and> (rotation c = 270 \<longrightarrow>
         rect_x r = vec_x (origin c) \<and> rect_y r = vec_y (origin c) - (vec_x (tileSize c) - 1))
    \<and> (1 \<le> vec_x (tileSize c) \<and> 1 \<le> vec_y (tileSize c) \<longrightarrow> rect_contains r (origin c))"
proof -
  from assms consider "rotation c = 0" | "rotation c = 90" | "rotation c = 180" | "rotation c = 270"
    by auto
  then show ?thesis
    by cases (simp_all add: getTileSpaceBounds_def rect_contains_def)
qed

theorem bounds_area_invariant_witness:
  "rotation (exampleStatic 4 (-7) 90) \<in> {0, 90, 180, 270}
   \<and> getTileSpaceBounds (exampleStatic 4 (-7) 90)
       = Inr \<lparr>rect_x = 2, rect_y = -7, rect_w = 3, rect_h = 2\<rparr>
   \<and> rect_contains \<lparr>rect_x = 2, rect_y = -7, rect_w = 3, rect_h = 2\<rparr>
        (origin (exampleStatic 4 (-7) 90))"
  using bounds_area_invariant [of "exampleStatic 4 (-7) 90"]
  by (simp add: exampleStatic_def getTileSpaceBounds_def rect_contains_def)

lemma js_rem_90: "js_rem a 90 = 0 \<longleftrightarrow> 90 dvd a"
proof -
  have "js_rem a 90 = 0 \<longleftrightarrow> a mod 90 = 0"
    unfolding js_rem_def by (auto simp: sgn_if zmod_zminus1_eq_if split: if_splits)
  then show ?thesis by (simp add: dvd_eq_mod_eq_0)
qed

text \<open>
  C4. The constructor asserts only that \<open>rotation\<close> is a multiple of 90: it fails exactly
  when \<open>rotation\<close> is not, and otherwise stores every argument unchanged. An
  \<open>originalRotation\<close> of 45 is accepted and stored.
\<close>

theorem constructor_checks_rotation_only:
  "new_StaticMapEntityComponent og ts r r0 sk sc =
     (if 90 dvd r
      then Inr \<lparr>origin = og, tileSize = ts, spriteKey = sk, rotation = r,
                originalRotation = r0, silhouetteColor = sc\<rparr>
      else Inl (RotationNotMultipleOf90 r))
   \<and> new_StaticMapEntityComponent \<lparr>vec_x = 0, vec_y = 0\<rparr> \<lparr>vec_x = 1, vec_y = 1\<rparr> 0 45 None None
       = Inr \<lparr>origin = \<lparr>vec_x = 0, vec_y = 0\<rparr>, tileSize = \<lparr>vec_x = 1, vec_y = 1\<rparr>,
              spriteKey = None, rotation = 0, originalRotation = 45, silhouetteColor = None\<rparr>"
  by (simp add: new_StaticMapEntityComponent_def js_rem_90)

text \<open>
  C10. A rotation that is a multiple of 90 but none of 0, 90, 180, 270 passes the constructor,
  and \<open>getTileSpaceBounds\<close> of the component it builds ends in the "Invalid rotation"
  assertion; that branch is reached exactly when the rotation is none of 0, 90, 180, 270.
\<close>

theorem rotation_outside_switch:
  "(90 dvd r \<and> r \<notin> {0, 90, 180, 270} \<longrightarrow>
      (\<exists>c. new_StaticMapEntityComponent og ts r r0 sk sc = Inr c \<and> rotation c = r
         \<and> getTileSpaceBounds c = Inl InvalidRotation))
   \<and> (getTileSpaceBounds c' = Inl InvalidRotation \<longleftrightarrow> rotation c' \<notin> {0, 90, 180, 270})"
  by (simp add: new_StaticMapEntityComponent_def js_rem_90 getTileSpaceBounds_def)

theorem rotation_outside_switch_witness:
  "(90::int) dvd 360 \<and> (360::int) \<notin> {0, 90, 180, 270}
   \<and> new_StaticMapEntityComponent \<lparr>vec_x = 0, vec_y = 0\<rparr> \<lparr>vec_x = 1, vec_y = 1\<rparr> 360 0 None None
       = Inr (exampleStatic 0 0 360\<lparr>tileSize := \<lparr>vec_x = 1, vec_y = 1\<rparr>\<rparr>)
   \<and> getTileSpaceBounds (exampleStatic 0 0 360\<lparr>tileSize := \<lparr>vec_x = 1, vec_y = 1\<rparr>\<rparr>)
       = Inl InvalidRotation
   \<and> new_StaticMapEntityComponent \<lparr>vec_x = 0, vec_y = 0\<rparr> \<lparr>vec_x = 1, vec_y = 1\<rparr> (-90) 0 None None
       = Inr (exampleStatic 0 0 (-90)\<lparr>tileSize := \<lparr>vec_x = 1, vec_y = 1\<rparr>\<rparr>)
   \<and> getTileSpaceBounds (exampleStatic 0 0 (-90)\<lparr>tileSize := \<lparr>vec_x = 1, vec_y = 1\<rparr>\<rparr>)
       = Inl InvalidRotation"
  using rotation_outside_switch [of 360 "\<lparr>vec_x = 0, vec_y = 0\<rparr>" "\<lparr>vec_x = 1, vec_y = 1\<rparr>" 0 None None
      "exampleStatic 0 0 (-90)\<lparr>tileSize := \<lparr>vec_x = 1, vec_y = 1\<rparr>\<rparr>"]
  by (simp add: exampleStatic_def new_StaticMapEntityComponent_def js_rem_def
      getTileSpaceBounds_def)

section \<open>Properties of the handoff\<close>

lemma tryPassOverItem_exact:
  "tryPassOverItem m rt i r k d =
     (filter (callSucceeds m rt i r k d) (filter (exposes rt r) priorityOrder) \<noteq> [],
      setComponents rt r
        (foldl (componentsAfter m i k d (getUndergroundBeltBaseSpeed rt)) (entities rt r)
           (tried m rt i r k d)),
      concat (map (callsOf m rt i r k d) (tried m rt i r k d)))"
  by (cases "Belt (entities rt r)"; cases "ItemProcessor (entities rt r)";
      cases "UndergroundBelt (entities rt r)")
    (auto simp: tryPassOverItem_def passToBelt_def passToItemProcessor_def
      passToUndergroundBelt_def tried_def uptoFirst_def exposes_def callSucceeds_def
      callsOf_def componentsAfter_def priorityOrder_def setComponents_def
      split: prod.splits)

lemma tried_distinct: "distinct (tried m rt i r k d)"
  by (cases "Belt (entities rt r)"; cases "ItemProcessor (entities rt r)";
      cases "UndergroundBelt (entities rt r)")
    (auto simp: tried_def uptoFirst_def exposes_def priorityOrder_def)

text \<open>
  C1, as the program has it. The capabilities a handoff tries are those the receiver
  exposes, in the order belt, item processor, underground belt, each once, up to and
  including the first one whose call takes the item. The calls of the handoff are exactly
  the calls of these capabilities, in this order: for a belt \<open>canAcceptNewItem\<close>, followed
  by \<open>takeNewItem\<close> when the answer is yes; for an item processor one \<open>tryTakeItem\<close>; for an
  underground belt one \<open>tryAcceptExternalItem\<close>. So no capability is called after the one
  that takes the item, and a capability that refuses is followed by the next one the
  receiver exposes. The receiver ends with the states these calls returned, and the handoff
  returns \<open>true\<close> exactly when one of the exposed capabilities takes the item.
\<close>

theorem handoff_priority:
  "tryPassOverItem m rt i r k d =
     (filter (callSucceeds m rt i r k d) (filter (exposes rt r) priorityOrder) \<noteq> [],
      setComponents rt r
        (foldl (componentsAfter m i k d (getUndergroundBeltBaseSpeed rt)) (entities rt r)
           (tried m rt i r k d)),
      concat (map (callsOf m rt i r k d) (tried m rt i r k d)))
   \<and> distinct (tried m rt i r k d)"
  using tryPassOverItem_exact [of m rt i r k d] tried_distinct [of m rt i r k d]
  by (rule conjI)

theorem handoff_priority_witness:
  "filter (exposes (exampleRoot 1) 1) priorityOrder = [DirectLaneCarrier, MultiSlotProcessor]
   \<and> tried (exampleMethods True True) (exampleRoot 1) 7 1 0 Right = [DirectLaneCarrier]
   \<and> tryPassOverItem (exampleMethods True True) (exampleRoot 1) 7 1 0 Right
       = (True,
          setComponents (exampleRoot 1) 1 (exampleReceiver\<lparr>Belt := Some [7]\<rparr>),
          [CanAcceptNewItem 1 Right, TakeNewItem 1 7 Right])
   \<and> tried (exampleMethods False True) (exampleRoot 1) 7 1 0 Right
       = [DirectLaneCarrier, MultiSlotProcessor]
   \<and> tried (exampleMethods False False) (exampleRoot 1) 7 1 0 Right
       = [DirectLaneCarrier, MultiSlotProcessor]
   \<and> tryPassOverItem (exampleMethods False False) (exampleRoot 1) 7 1 0 Right
       = (False,
          setComponents (exampleRoot 1) 1 exampleReceiver,
          [CanAcceptNewItem 1 Right, TryTakeItem 1 7 0 Right False])"
  using handoff_priority [of "exampleMethods True True" "exampleRoot 1" 7 1 0 Right]
    handoff_priority [of "exampleMethods False False" "exampleRoot 1" 7 1 0 Right]
  by (simp add: exposes_def priorityOrder_def exampleRoot_def exampleReceiver_def
      exampleMethods_def callSucceeds_def uptoFirst_def tried_def callsOf_def
      componentsAfter_def setComponents_def)

text \<open>
  The claim as it is written fails on a receiver that has a belt and an item processor when
  the belt refuses: the item processor is called in the same handoff.
\<close>

theorem handoff_falls_through:
  "exposes (exampleRoot 1) 1 DirectLaneCarrier
   \<and> tryPassOverItem (exampleMethods False True) (exampleRoot 1) 7 1 0 Right
       = (True,
          setComponents (exampleRoot 1) 1 (exampleReceiver\<lparr>ItemProcessor := Some [7]\<rparr>),
          [CanAcceptNewItem 1 Right, TryTakeItem 1 7 0 Right True])
   \<and> map capabilityOf [CanAcceptNewItem 1 Right, TryTakeItem 1 (7::nat) 0 Right True]
       = [Some DirectLaneCarrier, Some MultiSlotProcessor]"
  by (simp add: exposes_def exampleRoot_def exampleReceiver_def exampleMethods_def
      tryPassOverItem_def passToBelt_def passToItemProcessor_def setComponents_def)

section \<open>Properties of the update\<close>

lemma passToBelt_frame:
  assumes "passToBelt m rt i r d = (ok, rt', calls)"
  shows "ItemEjector (entities rt' x) = ItemEjector (entities rt x)"
    and "ItemProcessor (entities rt' x) = ItemProcessor (entities rt x)"
    and "UndergroundBelt (entities rt' x) = UndergroundBelt (entities rt x)"
    and "getUndergroundBeltBaseSpeed rt' = getUndergroundBeltBaseSpeed rt"
    and "\<not> ok \<Longrightarrow> rt' = rt"
    and "ok = (\<exists>c\<in>set calls. taken c)"
    and "concat (map transfers calls) = (if ok then [(r, i)] else [])"
  using assms
  by (auto simp: passToBelt_def setComponents_def split: option.splits if_splits)

lemma put_ItemProcessor_same:
  "ItemProcessor (entities rt r) = Some p \<Longrightarrow>
   setComponents rt r ((entities rt r)\<lparr>ItemProcessor := Some p\<rparr>) = rt"
proof -
  assume a: "ItemProcessor (entities rt r) = Some p"
  have "(entities rt r)\<lparr>ItemProcessor := Some p\<rparr> = entities rt r"
    using a [symmetric] by simp
  then show ?thesis by (simp add: setComponents_def)
qed

lemma put_UndergroundBelt_same:
  "UndergroundBelt (entities rt r) = Some u \<Longrightarrow>
   setComponents rt r ((entities rt r)\<lparr>UndergroundBelt := Some u\<rparr>) = rt"
proof -
  assume a: "UndergroundBelt (entities rt r) = Some u"
  have "(entities rt r)\<lparr>UndergroundBelt := Some u\<rparr> = entities rt r"
    using a [symmetric] by simp
  then show ?thesis by (simp add: setComponents_def)
qed

lemma passToItemProcessor_frame:
  assumes "passToItemProcessor m rt i r k d = (ok, rt', calls)"
  shows "ItemEjector (entities rt' x) = ItemEjector (entities rt x)"
    and "UndergroundBelt (entities rt' x) = UndergroundBelt (entities rt x)"
    and "getUndergroundBeltBaseSpeed rt' = getUndergroundBeltBaseSpeed rt"
    and "ok = (\<exists>c\<in>set calls. taken c)"
    and "concat (map transfers calls) = (if ok then [(r, i)] else [])"
  using assms
  by (auto simp: passToItemProcessor_def setComponents_def
      split: option.splits if_splits prod.splits)

lemma passToItemProcessor_refused:
  assumes "passToItemProcessor m rt i r k d = (False, rt', calls)" and "receiverContract m"
  shows "rt' = rt"
proof (cases "ItemProcessor (entities rt r)")
  case None
  with assms show ?thesis by (simp add: passToItemProcessor_def)
next
  case (Some p)
  obtain ok p' where t: "tryTakeItem m p i k d = (ok, p')" by (cases "tryTakeItem m p i k d")
  with assms(1) Some have "ok = False" and r: "rt' = setComponents rt r ((entities rt r)\<lparr>ItemProcessor := Some p'\<rparr>)"
    by (auto simp: passToItemProcessor_def)
  with t assms(2) have "p' = p" unfolding receiverContract_def by blast
  with r Some show ?thesis by (simp add: put_ItemProcessor_same)
qed

lemma passToUndergroundBelt_frame:
  assumes "passToUndergroundBelt m rt i r = (ok, rt', calls)"
  shows "ItemEjector (entities rt' x) = ItemEjector (entities rt x)"
    and "ok = (\<exists>c\<in>set calls. taken c)"
    and "concat (map transfers calls) = (if ok then [(r, i)] else [])"
  using assms
  by (auto simp: passToUndergroundBelt_def setComponents_def
      split: option.splits if_splits prod.splits)

lemma passToUndergroundBelt_refused:
  assumes "passToUndergroundBelt m rt i r = (False, rt', calls)" and "receiverContract m"
  shows "rt' = rt"
proof (cases "UndergroundBelt (entities rt r)")
  case None
  with assms show ?thesis by (simp add: passToUndergroundBelt_def)
next
  case (Some u)
  obtain ok u' where t: "tryAcceptExternalItem m u i (getUndergroundBeltBaseSpeed rt) = (ok, u')"
    by (cases "tryAcceptExternalItem m u i (getUndergroundBeltBaseSpeed rt)")
  with assms(1) Some have "ok = False"
    and r: "rt' = setComponents rt r ((entities rt r)\<lparr>UndergroundBelt := Some u'\<rparr>)"
    by (auto simp: passToUndergroundBelt_def)
  with t assms(2) have "u' = u" unfolding receiverContract_def by blast
  with r Some show ?thesis by (simp add: put_UndergroundBelt_same)
qed

lemma tryPassOverItem_cases:
  assumes "tryPassOverItem m rt i r k d = (ok, rt', calls)"
  obtains (belt) calls1 where "passToBelt m rt i r d = (True, rt', calls1)" "ok" "calls = calls1"
  | (processor) rt1 calls1 calls2 where "passToBelt m rt i r d = (False, rt1, calls1)"
      "passToItemProcessor m rt1 i r k d = (True, rt', calls2)" "ok" "calls = calls1 @ calls2"
  | (underground) rt1 calls1 rt2 calls2 calls3 where "passToBelt m rt i r d = (False, rt1, calls1)"
      "passToItemProcessor m rt1 i r k d = (False, rt2, calls2)"
      "passToUndergroundBelt m rt2 i r = (ok, rt', calls3)" "calls = calls1 @ calls2 @ calls3"
  using assms unfolding tryPassOverItem_def
  by (auto split: prod.splits if_splits)

lemma tryPassOverItem_frame:
  assumes "tryPassOverItem m rt i r k d = (ok, rt', calls)"
  shows "ItemEjector (entities rt' x) = ItemEjector (entities rt x)"
    and "ok = (\<exists>c\<in>set calls. taken c)"
    and "concat (map transfers calls) = (if ok then [(r, i)] else [])"
  using assms
proof (atomize (full), cases rule: tryPassOverItem_cases)
  case (belt calls1)
  then show "ItemEjector (entities rt' x) = ItemEjector (entities rt x) \<and>
    ok = (\<exists>c\<in>set calls. taken c) \<and>
    concat (map transfers calls) = (if ok then [(r, i)] else [])"
    using passToBelt_frame [of m rt i r d True rt' calls1] by simp
next
  case (processor rt1 calls1 calls2)
  then show "ItemEjector (entities rt' x) = ItemEjector (entities rt x) \<and>
    ok = (\<exists>c\<in>set calls. taken c) \<and>
    concat (map transfers calls) = (if ok then [(r, i)] else [])"
    using passToBelt_frame [of m rt i r d False rt1 calls1]
      passToItemProcessor_frame [of m rt1 i r k d True rt' calls2]
    by auto
next
  case (underground rt1 calls1 rt2 calls2 calls3)
  then show "ItemEjector (entities rt' x) = ItemEjector (entities rt x) \<and>
    ok = (\<exists>c\<in>set calls. taken c) \<and>
    concat (map transfers calls) = (if ok then [(r, i)] else [])"
    using passToBelt_frame [of m rt i r d False rt1 calls1]
      passToItemProcessor_frame [of m rt1 i r k d False rt2 calls2]
      passToUndergroundBelt_frame [of m rt2 i r ok rt' calls3]
    by auto
qed

lemma tryPassOverItem_refused:
  assumes "tryPassOverItem m rt i r k d = (False, rt', calls)" and "receiverContract m"
  shows "rt' = rt"
  using assms(1)
proof (cases rule: tryPassOverItem_cases)
  case (underground rt1 calls1 rt2 calls2 calls3)
  from underground(1) have "rt1 = rt" by (rule passToBelt_frame(5)) simp
  moreover from underground(2) assms(2) have "rt2 = rt1" by (rule passToItemProcessor_refused)
  moreover from underground(3) assms(2) have "rt' = rt2" by (rule passToUndergroundBelt_refused)
  ultimately show ?thesis by simp
qed simp_all


lemma tryPassOverItem_received:
  assumes "tryPassOverItem m rt i r k d = (True, rt', calls)"
  shows "calls \<noteq> [] \<and> taken (last calls) \<and> received m rt rt' (last calls)"
  using assms
  by (cases "Belt (entities rt r)"; cases "ItemProcessor (entities rt r)";
      cases "UndergroundBelt (entities rt r)")
    (auto simp: tryPassOverItem_def passToBelt_def passToItemProcessor_def
      passToUndergroundBelt_def setComponents_def
      split: prod.splits if_splits)

lemma tryPassOverItem_ok:
  "fst (tryPassOverItem m rt i r k d)
     = (filter (callSucceeds m rt i r k d) priorityOrder \<noteq> [])"
  by (cases "Belt (entities rt r)"; cases "ItemProcessor (entities rt r)";
      cases "UndergroundBelt (entities rt r)")
    (auto simp: tryPassOverItem_def passToBelt_def passToItemProcessor_def
      passToUndergroundBelt_def callSucceeds_def priorityOrder_def setComponents_def
      split: prod.splits)

lemma received_setSlot:
  "received m (setSlot rt e j f) rt' c = received m rt rt' c"
  "received m rt (setSlot rt' e j f) c = received m rt rt' c"
  by (cases c; simp add: setSlot_def setComponents_def split: option.splits)+

lemma tryPassOverItem_refusing:
  assumes "filter (callSucceeds m rt i r k d) priorityOrder = []"
  shows "\<exists>rt' calls. tryPassOverItem m rt i r k d = (False, rt', calls)
           \<and> (\<forall>c\<in>set calls. \<not> taken c)"
proof -
  obtain ok rt' calls where t: "tryPassOverItem m rt i r k d = (ok, rt', calls)"
    by (cases "tryPassOverItem m rt i r k d")
  with assms tryPassOverItem_ok [of m rt i r k d] have "\<not> ok" by simp
  with t tryPassOverItem_frame(2) [OF t] show ?thesis by auto
qed

lemma tryPassOverItem_refused_frame:
  assumes "tryPassOverItem m rt i r k d = (False, rt', calls)"
  shows "Belt (entities rt' x) = Belt (entities rt x)"
  using assms
  by (cases "Belt (entities rt r)"; cases "ItemProcessor (entities rt r)";
      cases "UndergroundBelt (entities rt r)")
    (auto simp: tryPassOverItem_def passToBelt_def passToItemProcessor_def
      passToUndergroundBelt_def setComponents_def
      split: prod.splits if_splits)

lemma getSlot_setSlot:
  "getSlot rt e j = Some s \<Longrightarrow> getSlot (setSlot rt e j f) e j = Some (f s)"
  by (auto simp: getSlot_def setSlot_def setComponents_def split: option.splits if_splits)

lemma setSlot_same:
  assumes "getSlot rt e j = Some s" and "f s = s"
  shows "setSlot rt e j f = rt"
proof -
  from assms(1) obtain ej where ej: "ItemEjector (entities rt e) = Some ej"
    and j: "j < length (slots ej)" and s: "slots ej ! j = s"
    by (auto simp: getSlot_def split: option.splits if_splits)
  have "(slots ej)[j := f (slots ej ! j)] = slots ej"
    using s assms(2) by (metis list_update_id)
  then have "ej\<lparr>slots := (slots ej)[j := f (slots ej ! j)]\<rparr> = ej" by simp
  then have "(entities rt e)\<lparr>ItemEjector := Some (ej\<lparr>slots := (slots ej)[j := f (slots ej ! j)]\<rparr>)\<rparr>
      = entities rt e"
    using ej [symmetric] by simp
  then show ?thesis using ej by (simp add: setSlot_def setComponents_def)
qed

lemma getSlot_cong:
  "(\<And>x. ItemEjector (entities rt' x) = ItemEjector (entities rt x)) \<Longrightarrow>
   getSlot rt' e j = getSlot rt e j"
  by (simp add: getSlot_def)

lemma getTileContent_setSlot: "getTileContent (setSlot rt e j f) = getTileContent rt"
  by (simp add: setSlot_def setComponents_def split: option.splits)

lemma findReceiver_outcome:
  assumes "findReceiver m rt e j s it = Inr (rt', calls)"
  shows "(rt' = rt \<and> (\<forall>c\<in>set calls. \<not> taken c \<and> transfers c = [])) \<or>
    (\<exists>ws r lt ld k d ok rt2 calls2.
      getTileContent rt ws = Some r \<and>
      tryPassOverItem m rt it r k d = (ok, rt2, calls2) \<and>
      calls = [GetTileContent ws, FindMatchingSlot r lt ld, CanAcceptItem r k it] @ calls2 \<and>
      rt' = (if ok then setSlot rt2 e j (\<lambda>s. s\<lparr>item := None\<rparr>) else rt2))"
proof (cases "StaticMapEntity (entities rt e)")
  case None
  with assms show ?thesis by (simp add: findReceiver_def)
next
  case sc: (Some sc)
  show ?thesis
  proof (cases "localTileToWorld sc (pos s)")
    case (Inl err)
    with assms sc show ?thesis by (simp add: findReceiver_def and_then_def)
  next
    case ws: (Inr ws)
    show ?thesis
    proof (cases "localDirectionToWorld sc (direction s)")
      case (Inl err)
      with assms sc ws show ?thesis by (simp add: findReceiver_def and_then_def)
    next
      case wd: (Inr wd)
      define target where "target = vec_add ws (enumDirectionToVector wd)"
      show ?thesis
      proof (cases "getTileContent rt target")
        case None
        with assms sc ws wd show ?thesis
          by (auto simp: findReceiver_def and_then_def Let_def target_def)
      next
        case r: (Some r)
        show ?thesis
        proof (cases "ItemAcceptor (entities rt r)")
          case None
          with assms sc ws wd r show ?thesis
            by (auto simp: findReceiver_def and_then_def Let_def target_def)
        next
          case ac: (Some ac)
          show ?thesis
          proof (cases "StaticMapEntity (entities rt r)")
            case None
            with assms sc ws wd r ac show ?thesis
              by (simp add: findReceiver_def and_then_def Let_def target_def)
          next
            case tsc: (Some tsc)
            show ?thesis
            proof (cases "worldToLocalTile tsc target")
              case (Inl err)
              with assms sc ws wd r ac tsc show ?thesis
                by (simp add: findReceiver_def and_then_def Let_def target_def)
            next
              case lt: (Inr lt)
              show ?thesis
              proof (cases "worldDirectionToLocal tsc wd")
                case (Inl err)
                with assms sc ws wd r ac tsc lt show ?thesis
                  by (simp add: findReceiver_def and_then_def Let_def target_def)
              next
                case ld: (Inr ld)
                show ?thesis
                proof (cases "findMatchingSlot m ac lt ld")
                  case None
                  with assms sc ws wd r ac tsc lt ld show ?thesis
                    by (auto simp: findReceiver_def and_then_def Let_def target_def)
                next
                  case (Some kd)
                  obtain k d where kd: "kd = (k, d)" by (cases kd)
                  show ?thesis
                  proof (cases "canAcceptItem m ac k it")
                    case False
                    with assms sc ws wd r ac tsc lt ld Some kd show ?thesis
                      by (auto simp: findReceiver_def and_then_def Let_def target_def)
                  next
                    case True
                    obtain ok rt2 calls2 where
                      t: "tryPassOverItem m rt it r k d = (ok, rt2, calls2)"
                      by (cases "tryPassOverItem m rt it r k d")
                    with assms sc ws wd r ac tsc lt ld Some kd True have
                      "calls = [GetTileContent target, FindMatchingSlot r lt ld,
                                CanAcceptItem r k it] @ calls2"
                      "rt' = (if ok then setSlot rt2 e j (\<lambda>s. s\<lparr>item := None\<rparr>) else rt2)"
                      by (auto simp: findReceiver_def and_then_def Let_def target_def
                          split: if_splits)
                    with r t show ?thesis by blast
                  qed
                qed
              qed
            qed
          qed
        qed
      qed
    qed
  qed
qed

lemma findReceiver_result:
  assumes "findReceiver m rt e j s it = Inr (rt', calls)"
  obtains (blocked) "\<not> (\<exists>c\<in>set calls. taken c)" "concat (map transfers calls) = []"
      "\<And>x. ItemEjector (entities rt' x) = ItemEjector (entities rt x)"
      "\<And>x. Belt (entities rt' x) = Belt (entities rt x)"
      "receiverContract m \<Longrightarrow> rt' = rt"
  | (handed) rt2 r ws where "\<exists>c\<in>set calls. taken c" "concat (map transfers calls) = [(r, it)]"
      "\<And>x. ItemEjector (entities rt2 x) = ItemEjector (entities rt x)"
      "rt' = setSlot rt2 e j (\<lambda>s. s\<lparr>item := None\<rparr>)"
      "hd calls = GetTileContent ws" "getTileContent rt ws = Some r"
      "calls \<noteq> []" "taken (last calls)" "received m rt rt2 (last calls)"
  using findReceiver_outcome [OF assms]
proof (elim disjE conjE exE)
  assume "rt' = rt" and "\<forall>c\<in>set calls. \<not> taken c \<and> transfers c = []"
  then show ?thesis by (intro blocked) auto
next
  fix ws r lt ld k d ok rt2 calls2
  assume g: "getTileContent rt ws = Some r"
    and t: "tryPassOverItem m rt it r k d = (ok, rt2, calls2)"
    and c: "calls = [GetTileContent ws, FindMatchingSlot r lt ld, CanAcceptItem r k it] @ calls2"
    and r: "rt' = (if ok then setSlot rt2 e j (\<lambda>s. s\<lparr>item := None\<rparr>) else rt2)"
  note fr = tryPassOverItem_frame [OF t]
  show ?thesis
  proof (cases ok)
    case True
    from t True have rc: "calls2 \<noteq> [] \<and> taken (last calls2) \<and> received m rt rt2 (last calls2)"
      by (intro tryPassOverItem_received) simp
    then have l: "last calls = last calls2" using c by simp
    show ?thesis
    proof (rule handed)
      show "\<exists>c\<in>set calls. taken c" using fr(2) True c by auto
      show "concat (map transfers calls) = [(r, it)]" using fr(3) True c by simp
      show "\<And>x. ItemEjector (entities rt2 x) = ItemEjector (entities rt x)" by (rule fr(1))
      show "rt' = setSlot rt2 e j (\<lambda>s. s\<lparr>item := None\<rparr>)" using r True by simp
      show "hd calls = GetTileContent ws" using c by simp
      show "getTileContent rt ws = Some r" by (rule g)
      show "calls \<noteq> []" using c by simp
      show "taken (last calls)" using rc l by simp
      show "received m rt rt2 (last calls)" using rc l by simp
    qed
  next
    case False
    show ?thesis
    proof (rule blocked)
      show "\<not> (\<exists>c\<in>set calls. taken c)" using fr(2) False c by auto
      show "concat (map transfers calls) = []" using fr(3) False c by simp
      show "\<And>x. ItemEjector (entities rt' x) = ItemEjector (entities rt x)"
        using fr(1) r False by simp
      show "\<And>x. Belt (entities rt' x) = Belt (entities rt x)"
        using tryPassOverItem_refused_frame [of m rt it r k d rt2 calls2] t r False by simp
      show "receiverContract m \<Longrightarrow> rt' = rt"
        using tryPassOverItem_refused [of m rt it r k d rt2 calls2] t r False by simp
    qed
  qed
qed

lemma findReceiver_blocked:
  assumes "handoffBlocked m rt e s it = Some cause"
  shows "\<exists>rt' calls. findReceiver m rt e j s it = Inr (rt', calls)
           \<and> (\<forall>c\<in>set calls. \<not> taken c) \<and> (cause \<noteq> CallReturnsFalse \<longrightarrow> rt' = rt)"
proof -
  from assms obtain sc ws wd where
    sc: "StaticMapEntity (entities rt e) = Some sc"
    and ws: "localTileToWorld sc (pos s) = Inr ws"
    and wd: "localDirectionToWorld sc (direction s) = Inr wd"
    by (auto simp: handoffBlocked_def split: option.splits sum.splits)
  define target where "target = vec_add ws (enumDirectionToVector wd)"
  note start = sc ws wd
  show ?thesis
  proof (cases "getTileContent rt target")
    case None
    with start show ?thesis
      by (simp add: findReceiver_def and_then_def Let_def target_def)
  next
    case r: (Some r)
    show ?thesis
    proof (cases "ItemAcceptor (entities rt r)")
      case None
      with start r show ?thesis
        by (simp add: findReceiver_def and_then_def Let_def target_def)
    next
      case ac: (Some ac)
      from assms start r ac obtain tsc lt ld where
        tsc: "StaticMapEntity (entities rt r) = Some tsc"
        and lt: "worldToLocalTile tsc target = Inr lt"
        and ld: "worldDirectionToLocal tsc wd = Inr ld"
        by (auto simp: handoffBlocked_def target_def split: option.splits sum.splits)
      note mid = start r ac tsc lt ld
      show ?thesis
      proof (cases "findMatchingSlot m ac lt ld")
        case None
        with mid show ?thesis
          by (simp add: findReceiver_def and_then_def Let_def target_def)
      next
        case (Some kd)
        obtain k d where kd: "kd = (k, d)" by (cases kd)
        show ?thesis
        proof (cases "canAcceptItem m ac k it")
          case False
          with mid Some kd show ?thesis
            by (simp add: findReceiver_def and_then_def Let_def target_def)
        next
          case True
          with assms mid Some kd have
            c: "filter (callSucceeds m rt it r k d) priorityOrder = []"
            by (auto simp: handoffBlocked_def target_def split: if_splits)
          from tryPassOverItem_refusing [OF c] obtain rt' calls where
            "tryPassOverItem m rt it r k d = (False, rt', calls)" "\<forall>c\<in>set calls. \<not> taken c"
            by blast
          moreover from assms mid Some kd True c have "cause = CallReturnsFalse"
            by (simp add: handoffBlocked_def target_def)
          ultimately show ?thesis using mid Some kd True
            by (simp add: findReceiver_def and_then_def Let_def target_def)
        qed
      qed
    qed
  qed
qed

lemma updateSlot_item:
  assumes "getSlot rt e j = Some s" and "item s = Some it"
  shows "updateSlot m growth rt e j =
     (if min 1 (progress s + growth) < 1
      then Inr (setSlot rt e j (\<lambda>x. x\<lparr>progress := min 1 (progress s + growth)\<rparr>), [])
      else findReceiver m (setSlot rt e j (\<lambda>x. x\<lparr>progress := min 1 (progress s + growth)\<rparr>))
             e j (s\<lparr>progress := min 1 (progress s + growth)\<rparr>) it)"
  using assms unfolding updateSlot_def Let_def by simp

text \<open>
  C5. A slot that holds an item and whose progress is still below 1 after the advance of
  this tick: the pass over the slot makes no call at all (no lookup on the map, no query of
  a receiver, no handoff), and all it changes is the progress of this slot, which becomes
  \<open>min(1, progress + growth)\<close>; the slot keeps its item.
\<close>

theorem still_ejecting_no_lookup:
  assumes "getSlot rt e j = Some s" and "item s = Some it"
    and "min 1 (progress s + growth) < 1"
  shows "updateSlot m growth rt e j =
           Inr (setSlot rt e j (\<lambda>x. x\<lparr>progress := min 1 (progress s + growth)\<rparr>), [])
         \<and> getSlot (setSlot rt e j (\<lambda>x. x\<lparr>progress := min 1 (progress s + growth)\<rparr>)) e j
             = Some (s\<lparr>progress := min 1 (progress s + growth)\<rparr>)"
proof -
  have "updateSlot m growth rt e j =
      Inr (setSlot rt e j (\<lambda>x. x\<lparr>progress := min 1 (progress s + growth)\<rparr>), [])"
    unfolding updateSlot_item [OF assms(1,2)] using assms(3) by (rule if_P)
  moreover have "getSlot (setSlot rt e j (\<lambda>x. x\<lparr>progress := min 1 (progress s + growth)\<rparr>)) e j
      = Some (s\<lparr>progress := min 1 (progress s + growth)\<rparr>)"
    using assms(1) by (rule getSlot_setSlot)
  ultimately show ?thesis by (rule conjI)
qed

lemma exampleSlot_get: "getSlot (exampleRoot p) 0 0 = Some (exampleSlot p)"
  by (simp add: getSlot_def exampleRoot_def exampleEmitter_def)

lemma exampleSlot_item: "item (exampleSlot p) = Some 7"
  by (simp add: exampleSlot_def)

theorem still_ejecting_no_lookup_witness:
  "getSlot (exampleRoot (3 / 10)) 0 0 = Some (exampleSlot (3 / 10))
   \<and> min 1 (progress (exampleSlot (3 / 10)) + progressGrowth (exampleRoot (3 / 10))) = 2 / 5
   \<and> updateSlot (exampleMethods True True) (progressGrowth (exampleRoot (3 / 10)))
        (exampleRoot (3 / 10)) 0 0
       = Inr (setSlot (exampleRoot (3 / 10)) 0 0 (\<lambda>x. x\<lparr>progress := 2 / 5\<rparr>), [])
   \<and> getSlot (setSlot (exampleRoot (3 / 10)) 0 0 (\<lambda>x. x\<lparr>progress := 2 / 5\<rparr>)) 0 0
       = Some (exampleSlot (2 / 5))"
proof -
  have g: "progressGrowth (exampleRoot (3 / 10)) = 1 / 10"
    by (simp add: progressGrowth_def exampleRoot_def)
  have p: "min 1 (progress (exampleSlot (3 / 10)) + 1 / 10) = 2 / 5"
    by (simp add: exampleSlot_def)
  have s: "exampleSlot (3 / 10)\<lparr>progress := 2 / 5\<rparr> = exampleSlot (2 / 5)"
    by (simp add: exampleSlot_def)
  have "min 1 (progress (exampleSlot (3 / 10)) + 1 / 10) < 1"
    unfolding p by simp
  from still_ejecting_no_lookup [OF exampleSlot_get exampleSlot_item this,
      of "exampleMethods True True"]
  show ?thesis
    unfolding g p s using exampleSlot_get [of "3 / 10"] by simp
qed

text \<open>
  C6. A slot that holds an item at progress 1, in a tick with a growth that is not negative,
  in an environment where the handoff cannot succeed for one of the five reasons: there is
  no entity on the target tile, the entity has no acceptor, no slot matches, the acceptor
  refuses the item, or no capability call takes it. The pass over the slot returns, no call
  it makes takes the item, and the slot is after the tick what it was before, item and
  progress included; the tick writes to no ejector and to no belt. In the first four cases
  the tick changes nothing at all, and so does any number of repeated ticks; in the fifth
  this holds if the receivers keep the contract that a call returning false leaves their
  state as it was.
\<close>

theorem blocked_slot_unchanged:
  assumes "getSlot rt e j = Some s" and "item s = Some it" and "progress s = 1"
    and "0 \<le> growth"
    and "handoffBlocked m rt e s it = Some cause"
  shows "\<exists>rt' calls. updateSlot m growth rt e j = Inr (rt', calls)
    \<and> getSlot rt' e j = Some s
    \<and> (\<forall>c\<in>set calls. \<not> taken c)
    \<and> (\<forall>x. ItemEjector (entities rt' x) = ItemEjector (entities rt x)
           \<and> Belt (entities rt' x) = Belt (entities rt x))
    \<and> (cause \<noteq> CallReturnsFalse \<or> receiverContract m \<longrightarrow>
          rt' = rt \<and> (\<forall>n. retrySlot m growth n rt e j = Inr rt))"
proof -
  have p: "min 1 (progress s + growth) = 1" using assms(3,4) by simp
  have s1: "s\<lparr>progress := 1\<rparr> = s" using assms(3) [symmetric] by simp
  have rt1: "setSlot rt e j (\<lambda>x. x\<lparr>progress := 1\<rparr>) = rt"
    using assms(1) s1 by (rule setSlot_same)
  have u: "updateSlot m growth rt e j = findReceiver m rt e j s it"
    unfolding updateSlot_item [OF assms(1,2)] p rt1 s1 by simp
  from findReceiver_blocked [OF assms(5), of j] obtain rt' calls where
    f: "findReceiver m rt e j s it = Inr (rt', calls)"
    and nt: "\<forall>c\<in>set calls. \<not> taken c"
    and same: "cause \<noteq> CallReturnsFalse \<longrightarrow> rt' = rt"
    by blast
  from f have fr: "(\<forall>x. ItemEjector (entities rt' x) = ItemEjector (entities rt x)
           \<and> Belt (entities rt' x) = Belt (entities rt x))
      \<and> (receiverContract m \<longrightarrow> rt' = rt)"
  proof (cases rule: findReceiver_result)
    case blocked
    then show ?thesis by simp
  next
    case (handed rt2 r ws)
    with nt show ?thesis by simp
  qed
  have a: "getSlot rt' e j = Some s"
    using getSlot_cong [of rt' rt e j] fr assms(1) by simp
  have b: "rt' = rt \<and> (\<forall>n. retrySlot m growth n rt e j = Inr rt)"
    if c: "cause \<noteq> CallReturnsFalse \<or> receiverContract m"
  proof -
    have eq: "rt' = rt" using c same fr by blast
    have "retrySlot m growth n rt e j = Inr rt" for n
      by (induction n) (simp_all add: and_then_def u f eq)
    with eq show ?thesis by simp
  qed
  from u f a nt fr b show ?thesis by auto
qed

lemma exampleMethods_contract: "receiverContract (exampleMethods b False)"
  by (simp add: receiverContract_def exampleMethods_def)

lemma example_blocked_slots:
  "getSlot emptyMapRoot 0 0 = Some (exampleSlot 1)"
  "getSlot noAcceptorRoot 0 0 = Some (exampleSlot 1)"
  "progress (exampleSlot 1) = 1"
  by (simp_all add: getSlot_def emptyMapRoot_def noAcceptorRoot_def exampleRoot_def
      exampleEmitter_def exampleSlot_def)

lemma example_blocked_causes:
  "handoffBlocked (exampleMethods True True) emptyMapRoot 0 (exampleSlot 1) 7
     = Some NoEntityAtTarget"
  "handoffBlocked (exampleMethods True True) noAcceptorRoot 0 (exampleSlot 1) 7
     = Some NoAcceptor"
  "handoffBlocked noSlotMethods (exampleRoot 1) 0 (exampleSlot 1) 7 = Some NoMatchingSlot"
  "handoffBlocked refusingAcceptorMethods (exampleRoot 1) 0 (exampleSlot 1) 7
     = Some AcceptanceRefused"
  "handoffBlocked (exampleMethods False False) (exampleRoot 1) 0 (exampleSlot 1) 7
     = Some CallReturnsFalse"
  by (simp_all add: emptyMapRoot_def noAcceptorRoot_def noSlotMethods_def
      refusingAcceptorMethods_def handoffBlocked_def callSucceeds_def priorityOrder_def
      exampleRoot_def exampleEmitter_def exampleReceiver_def exampleSlot_def exampleStatic_def
      exampleMethods_def localTileToWorld_def worldToLocalTile_def and_then_def
      localDirectionToWorld_def worldDirectionToLocal_def applyRotationToVector_def
      unapplyRotationToVector_def rotateFastMultipleOf90_def
      transformDirectionFromMultipleOf90_def directionCycle_def vec_add_def vec_sub_def)

lemma example_blocked_ticks:
  "\<exists>rt'. updateSlot (exampleMethods True True) (1 / 10) emptyMapRoot 0 0
     = Inr (rt', [GetTileContent \<lparr>vec_x = 1, vec_y = 0\<rparr>])"
  "\<exists>rt'. updateSlot (exampleMethods True True) (1 / 10) noAcceptorRoot 0 0
     = Inr (rt', [GetTileContent \<lparr>vec_x = 1, vec_y = 0\<rparr>])"
  "\<exists>rt'. updateSlot noSlotMethods (1 / 10) (exampleRoot 1) 0 0
     = Inr (rt', [GetTileContent \<lparr>vec_x = 1, vec_y = 0\<rparr>,
                  FindMatchingSlot 1 \<lparr>vec_x = 0, vec_y = 0\<rparr> Right])"
  "\<exists>rt'. updateSlot refusingAcceptorMethods (1 / 10) (exampleRoot 1) 0 0
     = Inr (rt', [GetTileContent \<lparr>vec_x = 1, vec_y = 0\<rparr>,
                  FindMatchingSlot 1 \<lparr>vec_x = 0, vec_y = 0\<rparr> Right,
                  CanAcceptItem 1 0 7])"
  "\<exists>rt'. updateSlot (exampleMethods False False) (1 / 10) (exampleRoot 1) 0 0
     = Inr (rt', [GetTileContent \<lparr>vec_x = 1, vec_y = 0\<rparr>,
                  FindMatchingSlot 1 \<lparr>vec_x = 0, vec_y = 0\<rparr> Right,
                  CanAcceptItem 1 0 7, CanAcceptNewItem 1 Right,
                  TryTakeItem 1 7 0 Right False])"
  by (simp_all add: emptyMapRoot_def noAcceptorRoot_def noSlotMethods_def
      refusingAcceptorMethods_def updateSlot_def getSlot_def setSlot_def setComponents_def findReceiver_def
      exampleRoot_def exampleEmitter_def exampleReceiver_def exampleSlot_def exampleStatic_def
      exampleMethods_def and_then_def Let_def localTileToWorld_def worldToLocalTile_def
      localDirectionToWorld_def worldDirectionToLocal_def applyRotationToVector_def
      unapplyRotationToVector_def rotateFastMultipleOf90_def
      transformDirectionFromMultipleOf90_def directionCycle_def vec_add_def vec_sub_def
      tryPassOverItem_def passToBelt_def passToItemProcessor_def passToUndergroundBelt_def)

theorem blocked_slot_unchanged_witness:
  "updateSlot (exampleMethods True True) (1 / 10) emptyMapRoot 0 0
     = Inr (emptyMapRoot, [GetTileContent \<lparr>vec_x = 1, vec_y = 0\<rparr>])
   \<and> updateSlot (exampleMethods True True) (1 / 10) noAcceptorRoot 0 0
     = Inr (noAcceptorRoot, [GetTileContent \<lparr>vec_x = 1, vec_y = 0\<rparr>])
   \<and> updateSlot noSlotMethods (1 / 10) (exampleRoot 1) 0 0
     = Inr (exampleRoot 1, [GetTileContent \<lparr>vec_x = 1, vec_y = 0\<rparr>,
                            FindMatchingSlot 1 \<lparr>vec_x = 0, vec_y = 0\<rparr> Right])
   \<and> updateSlot refusingAcceptorMethods (1 / 10) (exampleRoot 1) 0 0
     = Inr (exampleRoot 1, [GetTileContent \<lparr>vec_x = 1, vec_y = 0\<rparr>,
                            FindMatchingSlot 1 \<lparr>vec_x = 0, vec_y = 0\<rparr> Right,
                            CanAcceptItem 1 0 7])
   \<and> receiverContract (exampleMethods False False)
   \<and> updateSlot (exampleMethods False False) (1 / 10) (exampleRoot 1) 0 0
     = Inr (exampleRoot 1, [GetTileContent \<lparr>vec_x = 1, vec_y = 0\<rparr>,
                            FindMatchingSlot 1 \<lparr>vec_x = 0, vec_y = 0\<rparr> Right,
                            CanAcceptItem 1 0 7, CanAcceptNewItem 1 Right,
                            TryTakeItem 1 7 0 Right False])
   \<and> getSlot (exampleRoot 1) 0 0 = Some (exampleSlot 1)
   \<and> (\<forall>n. retrySlot (exampleMethods False False) (1 / 10) n (exampleRoot 1) 0 0
          = Inr (exampleRoot 1))"
proof -
  note p = example_blocked_slots(3)
  have g: "(0::real) \<le> 1 / 10" by simp
  have a: "updateSlot (exampleMethods True True) (1 / 10) emptyMapRoot 0 0
     = Inr (emptyMapRoot, [GetTileContent \<lparr>vec_x = 1, vec_y = 0\<rparr>])"
    using blocked_slot_unchanged [OF example_blocked_slots(1) exampleSlot_item p g
        example_blocked_causes(1)]
      example_blocked_ticks(1)
    by auto
  have b: "updateSlot (exampleMethods True True) (1 / 10) noAcceptorRoot 0 0
     = Inr (noAcceptorRoot, [GetTileContent \<lparr>vec_x = 1, vec_y = 0\<rparr>])"
    using blocked_slot_unchanged [OF example_blocked_slots(2) exampleSlot_item p g
        example_blocked_causes(2)]
      example_blocked_ticks(2)
    by auto
  have c: "updateSlot noSlotMethods (1 / 10) (exampleRoot 1) 0 0
     = Inr (exampleRoot 1, [GetTileContent \<lparr>vec_x = 1, vec_y = 0\<rparr>,
                            FindMatchingSlot 1 \<lparr>vec_x = 0, vec_y = 0\<rparr> Right])"
    using blocked_slot_unchanged [OF exampleSlot_get exampleSlot_item p g
        example_blocked_causes(3)]
      example_blocked_ticks(3)
    by auto
  have d: "updateSlot refusingAcceptorMethods (1 / 10) (exampleRoot 1) 0 0
     = Inr (exampleRoot 1, [GetTileContent \<lparr>vec_x = 1, vec_y = 0\<rparr>,
                            FindMatchingSlot 1 \<lparr>vec_x = 0, vec_y = 0\<rparr> Right,
                            CanAcceptItem 1 0 7])"
    using blocked_slot_unchanged [OF exampleSlot_get exampleSlot_item p g
        example_blocked_causes(4)]
      example_blocked_ticks(4)
    by auto
  have e: "updateSlot (exampleMethods False False) (1 / 10) (exampleRoot 1) 0 0
     = Inr (exampleRoot 1, [GetTileContent \<lparr>vec_x = 1, vec_y = 0\<rparr>,
                            FindMatchingSlot 1 \<lparr>vec_x = 0, vec_y = 0\<rparr> Right,
                            CanAcceptItem 1 0 7, CanAcceptNewItem 1 Right,
                            TryTakeItem 1 7 0 Right False])
     \<and> (\<forall>n. retrySlot (exampleMethods False False) (1 / 10) n (exampleRoot 1) 0 0
          = Inr (exampleRoot 1))"
    using blocked_slot_unchanged [OF exampleSlot_get exampleSlot_item p g
        example_blocked_causes(5)]
      example_blocked_ticks(5) exampleMethods_contract [of False]
    by auto
  from a b c d e exampleMethods_contract [of False] exampleSlot_get [of 1]
  show ?thesis by simp
qed

text \<open>
  C7. A slot that holds an item, in a tick in which a call takes the item: after the tick the
  slot holds no item and its progress is 1, the value the advance of this tick gave it, not 0;
  the calls of the tick hand the item over exactly once, to the entity the map returned for
  the target tile, in the last call of the tick, and after the tick the component of the
  receiver that was called holds the state its method returned for this item; and a later
  tick passes over the idle slot without touching it, whatever the growth.
\<close>

theorem handoff_clears_item_keeps_progress:
  assumes "getSlot rt e j = Some s" and "item s = Some it"
    and "updateSlot m growth rt e j = Inr (rt', calls)"
    and "\<exists>c\<in>set calls. taken c"
  shows "getSlot rt' e j = Some (s\<lparr>progress := 1, item := None\<rparr>)
    \<and> min 1 (progress s + growth) = 1
    \<and> (\<exists>r ws. concat (map transfers calls) = [(r, it)]
          \<and> hd calls = GetTileContent ws \<and> getTileContent rt ws = Some r)
    \<and> calls \<noteq> [] \<and> taken (last calls) \<and> received m rt rt' (last calls)
    \<and> (\<forall>growth'. updateSlot m growth' rt' e j = Inr (rt', []))"
proof -
  define p where "p = min 1 (progress s + growth)"
  define rt1 where "rt1 = setSlot rt e j (\<lambda>x. x\<lparr>progress := p\<rparr>)"
  have u: "updateSlot m growth rt e j =
     (if p < 1 then Inr (rt1, []) else findReceiver m rt1 e j (s\<lparr>progress := p\<rparr>) it)"
    unfolding p_def rt1_def by (rule updateSlot_item [OF assms(1,2)])
  have np: "\<not> p < 1"
  proof
    assume "p < 1"
    with u assms(3) have "calls = []" by simp
    with assms(4) show False by simp
  qed
  moreover have "p \<le> 1" unfolding p_def by simp
  ultimately have p1: "p = 1" by simp
  from u assms(3) np have f: "findReceiver m rt1 e j (s\<lparr>progress := p\<rparr>) it = Inr (rt', calls)"
    by simp
  have g1: "getSlot rt1 e j = Some (s\<lparr>progress := p\<rparr>)"
    unfolding rt1_def using assms(1) by (rule getSlot_setSlot)
  have t1: "getTileContent rt1 = getTileContent rt"
    unfolding rt1_def by (rule getTileContent_setSlot)
  from f show ?thesis
  proof (cases rule: findReceiver_result)
    case blocked
    with assms(4) show ?thesis by simp
  next
    case (handed rt2 r ws)
    have "getSlot rt2 e j = Some (s\<lparr>progress := p\<rparr>)"
      using getSlot_cong [of rt2 rt1 e j] handed(3) g1 by simp
    then have a: "getSlot rt' e j = Some (s\<lparr>progress := 1, item := None\<rparr>)"
      unfolding handed(4) using p1 by (simp add: getSlot_setSlot)
    then have b: "updateSlot m growth' rt' e j = Inr (rt', [])" for growth'
      by (simp add: updateSlot_def)
    have c: "\<exists>r ws. concat (map transfers calls) = [(r, it)]
          \<and> hd calls = GetTileContent ws \<and> getTileContent rt ws = Some r"
      using handed(2,5,6) t1 by auto
    have d: "received m rt rt' (last calls)"
      using handed(9) unfolding handed(4) rt1_def received_setSlot .
    from a p1 b c d handed(7,8) show ?thesis unfolding p_def by simp
  qed
qed

lemma example_handoff_tick:
  "\<exists>rt'. updateSlot (exampleMethods True True) (1 / 10) (exampleRoot (19 / 20)) 0 0
     = Inr (rt', [GetTileContent \<lparr>vec_x = 1, vec_y = 0\<rparr>,
                  FindMatchingSlot 1 \<lparr>vec_x = 0, vec_y = 0\<rparr> Right,
                  CanAcceptItem 1 0 7, CanAcceptNewItem 1 Right, TakeNewItem 1 7 Right])"
  by (simp add: updateSlot_def getSlot_def setSlot_def setComponents_def findReceiver_def
      exampleRoot_def exampleEmitter_def exampleReceiver_def exampleSlot_def exampleStatic_def
      exampleMethods_def and_then_def Let_def localTileToWorld_def worldToLocalTile_def
      localDirectionToWorld_def worldDirectionToLocal_def applyRotationToVector_def
      unapplyRotationToVector_def rotateFastMultipleOf90_def
      transformDirectionFromMultipleOf90_def directionCycle_def vec_add_def vec_sub_def
      tryPassOverItem_def passToBelt_def passToItemProcessor_def passToUndergroundBelt_def)

theorem handoff_clears_item_keeps_progress_witness:
  "\<exists>rt'. updateSlot (exampleMethods True True) (1 / 10) (exampleRoot (19 / 20)) 0 0
     = Inr (rt', [GetTileContent \<lparr>vec_x = 1, vec_y = 0\<rparr>,
                  FindMatchingSlot 1 \<lparr>vec_x = 0, vec_y = 0\<rparr> Right,
                  CanAcceptItem 1 0 7, CanAcceptNewItem 1 Right, TakeNewItem 1 7 Right])
     \<and> getSlot rt' 0 0 = Some (exampleSlot (19 / 20)\<lparr>progress := 1, item := None\<rparr>)
     \<and> Belt (entities (exampleRoot (19 / 20)) 1) = Some []
     \<and> Belt (entities rt' 1) = Some [7]
     \<and> updateSlot (exampleMethods True True) (1 / 10) rt' 0 0 = Inr (rt', [])"
proof -
  from example_handoff_tick obtain rt' where
    u: "updateSlot (exampleMethods True True) (1 / 10) (exampleRoot (19 / 20)) 0 0
     = Inr (rt', [GetTileContent \<lparr>vec_x = 1, vec_y = 0\<rparr>,
                  FindMatchingSlot 1 \<lparr>vec_x = 0, vec_y = 0\<rparr> Right,
                  CanAcceptItem 1 0 7, CanAcceptNewItem 1 Right, TakeNewItem 1 7 Right])"
    by blast
  have "\<exists>c\<in>set [GetTileContent \<lparr>vec_x = 1, vec_y = 0\<rparr>,
                  FindMatchingSlot 1 \<lparr>vec_x = 0, vec_y = 0\<rparr> Right,
                  CanAcceptItem 1 0 (7::nat), CanAcceptNewItem 1 Right, TakeNewItem 1 7 Right].
          taken c"
    by simp
  from handoff_clears_item_keeps_progress [OF exampleSlot_get exampleSlot_item u this]
  have "getSlot rt' 0 0 = Some (exampleSlot (19 / 20)\<lparr>progress := 1, item := None\<rparr>)"
    and "received (exampleMethods True True) (exampleRoot (19 / 20)) rt' (TakeNewItem 1 7 Right)"
    and "updateSlot (exampleMethods True True) (1 / 10) rt' 0 0 = Inr (rt', [])"
    by simp_all
  moreover have b: "Belt (entities (exampleRoot (19 / 20)) 1) = Some []"
    by (simp add: exampleRoot_def exampleReceiver_def)
  ultimately have "getSlot rt' 0 0 = Some (exampleSlot (19 / 20)\<lparr>progress := 1, item := None\<rparr>)"
    and "Belt (entities rt' 1) = Some [7]"
    and "updateSlot (exampleMethods True True) (1 / 10) rt' 0 0 = Inr (rt', [])"
    by (simp_all add: exampleMethods_def)
  with u b show ?thesis by blast
qed

section \<open>Properties of the loops\<close>

text \<open>
  A pass over a slot keeps the length of every slot array, so the slot loop may read the
  length once; and in a world where every entity has a \<open>StaticMapEntity\<close> whose rotation
  is a multiple of 90, the pass returns: none of its assertions fails.
\<close>

lemma setSlot_frame:
  "StaticMapEntity (entities (setSlot rt e j f) x) = StaticMapEntity (entities rt x)"
  "ItemAcceptor (entities (setSlot rt e j f) x) = ItemAcceptor (entities rt x)"
  "map_option (\<lambda>c. length (slots c)) (ItemEjector (entities (setSlot rt e j f) x))
     = map_option (\<lambda>c. length (slots c)) (ItemEjector (entities rt x))"
  by (simp_all add: setSlot_def setComponents_def split: option.splits)

lemma updateSlot_slots_length:
  assumes "updateSlot m growth rt e j = Inr (rt', calls)"
  shows "map_option (\<lambda>c. length (slots c)) (ItemEjector (entities rt' x))
     = map_option (\<lambda>c. length (slots c)) (ItemEjector (entities rt x))"
proof (cases "getSlot rt e j")
  case None
  with assms show ?thesis by (simp add: updateSlot_def)
next
  case (Some s)
  show ?thesis
  proof (cases "item s")
    case None
    with assms Some show ?thesis by (simp add: updateSlot_def)
  next
    case (Some it)
    define p where "p = min 1 (progress s + growth)"
    define rt1 where "rt1 = setSlot rt e j (\<lambda>x. x\<lparr>progress := p\<rparr>)"
    have u: "updateSlot m growth rt e j =
       (if p < 1 then Inr (rt1, []) else findReceiver m rt1 e j (s\<lparr>progress := p\<rparr>) it)"
      unfolding p_def rt1_def by (rule updateSlot_item [OF \<open>getSlot rt e j = Some s\<close> Some])
    have l1: "map_option (\<lambda>c. length (slots c)) (ItemEjector (entities rt1 x))
       = map_option (\<lambda>c. length (slots c)) (ItemEjector (entities rt x))"
      unfolding rt1_def by (rule setSlot_frame)
    show ?thesis
    proof (cases "p < 1")
      case True
      with u assms l1 show ?thesis by simp
    next
      case False
      with u assms have "findReceiver m rt1 e j (s\<lparr>progress := p\<rparr>) it = Inr (rt', calls)"
        by simp
      then show ?thesis
      proof (cases rule: findReceiver_result)
        case blocked
        with l1 show ?thesis by simp
      next
        case (handed rt2 r ws)
        have "map_option (\<lambda>c. length (slots c)) (ItemEjector (entities rt' x))
           = map_option (\<lambda>c. length (slots c)) (ItemEjector (entities rt2 x))"
          unfolding handed(4) by (rule setSlot_frame)
        with handed(3) l1 show ?thesis by simp
      qed
    qed
  qed
qed

lemma rotate_returns:
  assumes "90 dvd a"
  shows "\<exists>w. rotateFastMultipleOf90 v a = Inr w"
    and "\<exists>d'. transformDirectionFromMultipleOf90 d a = Inr d'"
proof -
  from assms have h: "a mod 90 = 0" by (simp only: dvd_eq_mod_eq_0)
  show "\<exists>w. rotateFastMultipleOf90 v a = Inr w"
    unfolding rotateFastMultipleOf90_def Let_def
    by (cases "a mod 360 = 0"; cases "a mod 360 = 90"; cases "a mod 360 = 180")
      (simp_all only: h if_True if_False not_not refl sum.inject simp_thms)
  show "\<exists>d'. transformDirectionFromMultipleOf90 d a = Inr d'"
    unfolding transformDirectionFromMultipleOf90_def
    by (simp only: h if_False not_not refl sum.inject simp_thms)
qed

lemma unrotate_returns:
  assumes "90 dvd a"
  shows "\<exists>w. rotateFastMultipleOf90 v (360 - a) = Inr w"
    and "\<exists>d'. transformDirectionFromMultipleOf90 d (360 - a) = Inr d'"
proof -
  have "(90::int) dvd 360" by simp
  then have "90 dvd 360 - a" using assms by (rule dvd_diff)
  then show "\<exists>w. rotateFastMultipleOf90 v (360 - a) = Inr w"
    and "\<exists>d'. transformDirectionFromMultipleOf90 d (360 - a) = Inr d'"
    by (rule rotate_returns)+
qed

lemma findReceiver_returns:
  assumes "\<And>x. \<exists>sc. StaticMapEntity (entities rt x) = Some sc \<and> 90 dvd rotation sc"
  shows "\<exists>rt' calls. findReceiver m rt e j s it = Inr (rt', calls)"
proof -
  from assms obtain sc where sc: "StaticMapEntity (entities rt e) = Some sc" "90 dvd rotation sc"
    by blast
  from rotate_returns(1) [OF sc(2), of "pos s"] obtain w where
    "rotateFastMultipleOf90 (pos s) (rotation sc) = Inr w"
    by blast
  then obtain ws where ws: "localTileToWorld sc (pos s) = Inr ws"
    by (simp add: localTileToWorld_def applyRotationToVector_def and_then_def)
  from rotate_returns(2) [OF sc(2), of "direction s"] obtain wd where
    wd: "localDirectionToWorld sc (direction s) = Inr wd"
    unfolding localDirectionToWorld_def by blast
  define target where "target = vec_add ws (enumDirectionToVector wd)"
  show ?thesis
  proof (cases "getTileContent rt target")
    case None
    with sc ws wd show ?thesis
      by (simp add: findReceiver_def and_then_def Let_def target_def)
  next
    case (Some r)
    from assms obtain tsc where tsc: "StaticMapEntity (entities rt r) = Some tsc"
      "90 dvd rotation tsc"
      by blast
    from unrotate_returns(1) [OF tsc(2), of "vec_sub target (origin tsc)"] obtain lt where
      lt: "worldToLocalTile tsc target = Inr lt"
      unfolding worldToLocalTile_def unapplyRotationToVector_def Let_def by blast
    from unrotate_returns(2) [OF tsc(2), of wd] obtain ld where
      ld: "worldDirectionToLocal tsc wd = Inr ld"
      unfolding worldDirectionToLocal_def by blast
    have f: "findReceiver m rt e j s it =
      (case ItemAcceptor (entities rt r) of
         None \<Rightarrow> Inr (rt, [GetTileContent target])
       | Some ac \<Rightarrow>
          (case findMatchingSlot m ac lt ld of
             None \<Rightarrow> Inr (rt, [GetTileContent target, FindMatchingSlot r lt ld])
           | Some (k, d) \<Rightarrow>
               if \<not> canAcceptItem m ac k it
               then Inr (rt, [GetTileContent target, FindMatchingSlot r lt ld]
                               @ [CanAcceptItem r k it])
               else (case tryPassOverItem m rt it r k d of
                 (ok, rt', calls) \<Rightarrow>
                   if ok
                   then Inr (setSlot rt' e j (\<lambda>s. s\<lparr>item := None\<rparr>),
                             [GetTileContent target, FindMatchingSlot r lt ld]
                               @ [CanAcceptItem r k it] @ calls)
                   else Inr (rt',
                             [GetTileContent target, FindMatchingSlot r lt ld]
                               @ [CanAcceptItem r k it] @ calls))))"
      unfolding findReceiver_def Let_def
      by (simp only: sc ws wd Some tsc lt ld and_then_def target_def [symmetric]
          option.case sum.case)
    show ?thesis
      unfolding f by (simp split: option.splits prod.splits)
  qed
qed

lemma updateSlot_returns:
  assumes "getSlot rt e j = Some s"
    and "\<And>x. \<exists>sc. StaticMapEntity (entities rt x) = Some sc \<and> 90 dvd rotation sc"
  shows "\<exists>rt' calls. updateSlot m growth rt e j = Inr (rt', calls)"
proof (cases "item s")
  case None
  with assms(1) show ?thesis by (simp add: updateSlot_def)
next
  case (Some it)
  define p where "p = min 1 (progress s + growth)"
  define rt1 where "rt1 = setSlot rt e j (\<lambda>x. x\<lparr>progress := p\<rparr>)"
  have u: "updateSlot m growth rt e j =
     (if p < 1 then Inr (rt1, []) else findReceiver m rt1 e j (s\<lparr>progress := p\<rparr>) it)"
    unfolding p_def rt1_def by (rule updateSlot_item [OF assms(1) Some])
  have "\<And>x. \<exists>sc. StaticMapEntity (entities rt1 x) = Some sc \<and> 90 dvd rotation sc"
    unfolding rt1_def setSlot_frame by (rule assms(2))
  from findReceiver_returns [OF this, of m e j "s\<lparr>progress := p\<rparr>" it] show ?thesis
    unfolding u by (cases "p < 1") simp_all
qed

text \<open>
  With one entity in the list and one slot on it, a tick is one pass of the slot loop.
\<close>

lemma update_single_slot:
  assumes "allEntities rt = [e]" and "ItemEjector (entities rt e) = Some ej"
    and "length (slots ej) = 1"
  shows "update m rt = updateSlot m (progressGrowth rt) rt e 0"
  using assms
  by (simp add: update_def updateEntity_def and_then_def split: sum.splits prod.splits)

lemma update_example:
  "update (exampleMethods True True) (exampleRoot (3 / 10))
     = Inr (setSlot (exampleRoot (3 / 10)) 0 0 (\<lambda>x. x\<lparr>progress := 2 / 5\<rparr>), [])"
proof -
  have "update (exampleMethods True True) (exampleRoot (3 / 10))
      = updateSlot (exampleMethods True True) (progressGrowth (exampleRoot (3 / 10)))
          (exampleRoot (3 / 10)) 0 0"
    by (rule update_single_slot [of _ _ "\<lparr>slots = [exampleSlot (3 / 10)]\<rparr>"])
      (simp_all add: exampleRoot_def exampleEmitter_def)
  also have "\<dots> = Inr (setSlot (exampleRoot (3 / 10)) 0 0 (\<lambda>x. x\<lparr>progress := 2 / 5\<rparr>), [])"
    by (simp add: updateSlot_def getSlot_def progressGrowth_def exampleRoot_def
        exampleEmitter_def exampleSlot_def Let_def)
  finally show ?thesis .
qed

section \<open>Properties of the draw position\<close>

lemma drawSlot_centred:
  assumes "rotation sc \<in> {0, 90, 180, 270}"
  shows "\<exists>draws. drawSlot ts (Some sc) s = Inr draws \<and>
           map (\<lambda>(i, p). (i, Inr p)) draws = expectedDraws ts sc [s]"
proof -
  from assms consider "rotation sc = 0" | "rotation sc = 90" | "rotation sc = 180"
    | "rotation sc = 270"
    by auto
  then show ?thesis
    by cases
      (cases "item s"; cases "direction s";
        simp add: drawSlot_def expectedDraws_def centredDrawPosition_def specDrawPosition_def
          and_then_def rotateFastMultipleOf90_def transformDirectionFromMultipleOf90_def
          directionCycle_def algebra_simps)+
qed

lemma expectedDraws_Cons:
  "expectedDraws ts sc (s # ss) = expectedDraws ts sc [s] @ expectedDraws ts sc ss"
  by (simp add: expectedDraws_def)

lemma drawSlots_centred:
  assumes "rotation sc \<in> {0, 90, 180, 270}"
  shows "\<exists>draws. drawSlots ts (Some sc) ss = Inr draws \<and>
           map (\<lambda>(i, p). (i, Inr p)) draws = expectedDraws ts sc ss"
proof (induction ss)
  case Nil
  show ?case by (simp add: expectedDraws_def)
next
  case (Cons s ss)
  from drawSlot_centred [OF assms, of ts s] obtain d1 where
    d1: "drawSlot ts (Some sc) s = Inr d1" "map (\<lambda>(i, p). (i, Inr p)) d1 = expectedDraws ts sc [s]"
    by blast
  from Cons.IH obtain d2 where
    d2: "drawSlots ts (Some sc) ss = Inr d2" "map (\<lambda>(i, p). (i, Inr p)) d2 = expectedDraws ts sc ss"
    by blast
  have "drawSlots ts (Some sc) (s # ss) = Inr (d1 @ d2)"
    by (simp add: d1(1) d2(1) and_then_def)
  moreover have "map (\<lambda>(i, p). (i, Inr p)) (d1 @ d2) = expectedDraws ts sc (s # ss)"
    unfolding expectedDraws_Cons [of ts sc s ss] by (simp add: d1(2) d2(2))
  ultimately show ?case by blast
qed

text \<open>
  C9, as the program has it. For an entity whose rotation is 0, 90, 180 or 270,
  \<open>drawSingleEntity\<close> draws the items of the slots that hold one, in slot order and nothing
  for an idle slot, each at
  \<open>entityOrigin + rotate(localPosition) + (0.5, 0.5) + rotate(localDirectionUnitVector) * 0.5 * progress\<close>
  in tile units, scaled by the tile size: the position of the spec moved to the centre of
  the slot's tile.
\<close>

theorem draw_position_centred:
  assumes "ItemEjector (entities rt e) = Some ej" and "StaticMapEntity (entities rt e) = Some sc"
    and "rotation sc \<in> {0, 90, 180, 270}"
  shows "\<exists>draws. drawSingleEntity rt e = Inr draws \<and>
           map (\<lambda>(i, p). (i, Inr p)) draws = expectedDraws (globalConfig_tileSize rt) sc (slots ej)"
  using drawSlots_centred [OF assms(3), of "globalConfig_tileSize rt" "slots ej"] assms(1,2)
  by (simp add: drawSingleEntity_def)

theorem draw_position_centred_witness:
  "ItemEjector (entities (exampleRoot (1 / 2)) 0) = Some \<lparr>slots = [exampleSlot (1 / 2)]\<rparr>
   \<and> StaticMapEntity (entities (exampleRoot (1 / 2)) 0) = Some (exampleStatic 0 0 0)
   \<and> rotation (exampleStatic 0 0 0) \<in> {0, 90, 180, 270}
   \<and> drawSingleEntity (exampleRoot (1 / 2)) 0 = Inr [(7, 24, 16)]
   \<and> expectedDraws 32 (exampleStatic 0 0 0) [exampleSlot (1 / 2)] = [(7, Inr (24, 16))]"
  using draw_position_centred [of "exampleRoot (1 / 2)" 0 "\<lparr>slots = [exampleSlot (1 / 2)]\<rparr>"
      "exampleStatic 0 0 0"]
  by (simp add: exampleRoot_def exampleEmitter_def exampleStatic_def exampleSlot_def
      drawSingleEntity_def drawSlot_def expectedDraws_def centredDrawPosition_def
      specDrawPosition_def and_then_def rotateFastMultipleOf90_def
      transformDirectionFromMultipleOf90_def directionCycle_def)

text \<open>
  The claim as it is written fails: with the slot at the origin and the item just inserted
  (progress 0), the formula of the spec gives the corner (0, 0) of the tile, and the program
  draws the item at the centre (16, 16) of the 32-pixel tile.
\<close>

theorem draw_position_not_spec_formula:
  "drawSingleEntity (exampleRoot 0) 0 = Inr [(7, 16, 16)]
   \<and> specDrawPosition (globalConfig_tileSize (exampleRoot 0)) (exampleStatic 0 0 0) (exampleSlot 0)
       = Inr (0, 0)"
  by (simp add: exampleRoot_def exampleEmitter_def exampleStatic_def exampleSlot_def
      drawSingleEntity_def drawSlot_def specDrawPosition_def and_then_def
      rotateFastMultipleOf90_def transformDirectionFromMultipleOf90_def directionCycle_def)

end
